theory Spec2Isabelle
  imports Main "HOL-Library.Multiset"
begin

section \<open>Data model of the Klondike engine\<close>

text \<open>
  The embedding follows \<^verbatim>\<open>src/klondike_solitaire.tsx\<close>. A JavaScript array is a list
  in the same order: index 0 is the head, \<^verbatim>\<open>push\<close> appends at the end, \<^verbatim>\<open>pop\<close> removes the
  last element, and the top card of a pile is its last element. The rank strings
  \<^verbatim>\<open>"A"\<close>, \<^verbatim>\<open>"2"\<close>, ..., \<^verbatim>\<open>"K"\<close> of the type \<^verbatim>\<open>Rank\<close> are the constructors
  \<open>RA\<close>, \<open>R2\<close>, ..., \<open>RK\<close>.
\<close>

datatype Suit = HEARTS | DIAMONDS | CLUBS | SPADES

datatype Rank = RA | R2 | R3 | R4 | R5 | R6 | R7 | R8 | R9 | R10 | RJ | RQ | RK

record CardType =
  suit :: Suit
  rank :: Rank
  isFaceUp :: bool

text \<open>
  \<^verbatim>\<open>FoundationPile\<close> and \<^verbatim>\<open>TableauPile\<close> are objects with the single field \<^verbatim>\<open>cards\<close>;
  a pile of the model is that array.
\<close>

type_synonym Pile = "CardType list"

record GameState =
  stock :: "CardType list"
  waste :: "CardType list"
  foundation :: "Pile list"
  tableau :: "Pile list"

definition SUITS :: "Suit list" where
  "SUITS = [HEARTS, DIAMONDS, CLUBS, SPADES]"

definition RANKS :: "Rank list" where
  "RANKS = [RA, R2, R3, R4, R5, R6, R7, R8, R9, R10, RJ, RQ, RK]"

text \<open>\<^verbatim>\<open>Array.prototype.indexOf\<close>: the first position of the element, or \<open>-1\<close>.\<close>

fun indexOf :: "'a list \<Rightarrow> 'a \<Rightarrow> int" where
  "indexOf [] x = - 1"
| "indexOf (y # ys) x =
     (if y = x then 0
      else (let k = indexOf ys x in if k < 0 then - 1 else k + 1))"

section \<open>Deck, shuffle and deal\<close>

definition createDeck :: "CardType list" where
  "createDeck =
     concat (map (\<lambda>s. map (\<lambda>r. \<lparr>suit = s, rank = r, isFaceUp = False\<rparr>) RANKS) SUITS)"

text \<open>
  \<^verbatim>\<open>shuffleDeck\<close> runs \<^verbatim>\<open>for (i = arr.length - 1; i > 0; i--)\<close> and swaps \<^verbatim>\<open>arr[i]\<close> with
  \<^verbatim>\<open>arr[j]\<close>, where \<^verbatim>\<open>j = Math.floor(Math.random() * (i + 1))\<close> is some integer of
  \<open>{0..i}\<close>. The random source is a parameter of the model: \<open>rnd i\<close> is the draw made at
  loop index \<open>i\<close>, reduced into \<open>{0..i}\<close>; every value of that range is the draw of
  some \<open>rnd\<close>.
\<close>

fun shuffleLoop :: "(nat \<Rightarrow> nat) \<Rightarrow> CardType list \<Rightarrow> nat \<Rightarrow> CardType list" where
  "shuffleLoop rnd arr 0 = arr"
| "shuffleLoop rnd arr (Suc k) =
     (let i = Suc k; j = rnd i mod (i + 1)
      in shuffleLoop rnd (arr[i := arr ! j, j := arr ! i]) k)"

definition shuffleDeck :: "(nat \<Rightarrow> nat) \<Rightarrow> CardType list \<Rightarrow> CardType list" where
  "shuffleDeck rnd deck = shuffleLoop rnd deck (length deck - 1)"

text \<open>
  \<^verbatim>\<open>deck.pop()!\<close>: the last card and the rest of the deck. The source asserts that the
  deck is not exhausted; the model returns \<open>None\<close> there.
\<close>

definition popCard :: "CardType list \<Rightarrow> (CardType \<times> CardType list) option" where
  "popCard deck = (if deck = [] then None else Some (last deck, butlast deck))"

text \<open>The inner loop \<^verbatim>\<open>for (j = i; j < 7; j++)\<close> of \<^verbatim>\<open>initializeGame\<close>.\<close>

function dealRow :: "nat \<Rightarrow> nat \<Rightarrow> CardType list \<times> Pile list \<Rightarrow> (CardType list \<times> Pile list) option" where
  "dealRow i j (deck, tab) =
     (if j < 7 then
        (case popCard deck of
           None \<Rightarrow> None
         | Some (c, deck') \<Rightarrow>
             dealRow i (j + 1) (deck', tab[j := tab ! j @ [c\<lparr>isFaceUp := (j = i)\<rparr>]]))
      else Some (deck, tab))"
  by pat_completeness auto
termination
  by (relation "measure (\<lambda>(i, j, s). 7 - j)") auto

text \<open>The outer loop \<^verbatim>\<open>for (i = 0; i < 7; i++)\<close>.\<close>

function dealLoop :: "nat \<Rightarrow> CardType list \<times> Pile list \<Rightarrow> (CardType list \<times> Pile list) option" where
  "dealLoop i s =
     (if i < 7 then
        (case dealRow i i s of
           None \<Rightarrow> None
         | Some s' \<Rightarrow> dealLoop (i + 1) s')
      else Some s)"
  by pat_completeness auto
termination
  by (relation "measure (\<lambda>(i, s). 7 - i)") auto

definition deal :: "CardType list \<Rightarrow> GameState option" where
  "deal deck =
     (case dealLoop 0 (deck, replicate 7 []) of
        None \<Rightarrow> None
      | Some (deck', tab) \<Rightarrow>
          Some \<lparr>stock = deck', waste = [], foundation = replicate 4 [], tableau = tab\<rparr>)"

definition initializeGame :: "(nat \<Rightarrow> nat) \<Rightarrow> GameState option" where
  "initializeGame rnd = deal (shuffleDeck rnd createDeck)"

section \<open>Legality rules\<close>

definition canMoveToFoundation :: "CardType \<Rightarrow> Pile \<Rightarrow> bool" where
  "canMoveToFoundation crd pile =
     (if length pile = 0 then rank crd = RA
      else (let top = last pile
            in suit crd = suit top \<and>
               indexOf RANKS (rank crd) = indexOf RANKS (rank top) + 1))"

definition canMoveToTableau :: "CardType \<Rightarrow> Pile \<Rightarrow> bool" where
  "canMoveToTableau crd pile =
     (if length pile = 0 then rank crd = RK
      else (let top = last pile;
                red = (suit crd = HEARTS \<or> suit crd = DIAMONDS);
                topRed = (suit top = HEARTS \<or> suit top = DIAMONDS)
            in red \<noteq> topRed \<and>
               indexOf RANKS (rank crd) = indexOf RANKS (rank top) - 1))"

section \<open>Array operations used by the handlers\<close>

text \<open>
  The start position that \<^verbatim>\<open>slice(i)\<close> and \<^verbatim>\<open>splice(i, ...)\<close> compute from an integer
  argument: a negative argument counts from the end, and the result is clamped to
  \<open>{0..len}\<close>.
\<close>

definition relStart :: "nat \<Rightarrow> int \<Rightarrow> nat" where
  "relStart len i = (if i < 0 then nat (max (int len + i) 0) else min (nat i) len)"

definition sliceFrom :: "'a list \<Rightarrow> int \<Rightarrow> 'a list" where
  "sliceFrom xs i = drop (relStart (length xs) i) xs"

text \<open>What is left in the array after \<^verbatim>\<open>splice(i)\<close> and after \<^verbatim>\<open>splice(i, 1)\<close>.\<close>

definition spliceFrom :: "'a list \<Rightarrow> int \<Rightarrow> 'a list" where
  "spliceFrom xs i = take (relStart (length xs) i) xs"

definition spliceOne :: "'a list \<Rightarrow> int \<Rightarrow> 'a list" where
  "spliceOne xs i = (let s = relStart (length xs) i in take s xs @ drop (s + 1) xs)"

text \<open>\<^verbatim>\<open>if (col.length) col[col.length - 1].isFaceUp = true\<close>.\<close>

definition flipTop :: "Pile \<Rightarrow> Pile" where
  "flipTop col = (if length col = 0 then col else butlast col @ [(last col)\<lparr>isFaceUp := True\<rparr>])"

text \<open>
  A pile id is the string \<^verbatim>\<open>"waste"\<close>, \<^verbatim>\<open>"tableau-3"\<close>, \<^verbatim>\<open>"foundation-0"\<close>. The handlers
  read it through \<^verbatim>\<open>source.split("-")\<close> and \<^verbatim>\<open>+srcIdxS\<close>; the model takes the two results:
  the type string and the number. The number is \<open>Some n\<close> when it is the non-negative
  integer \<open>n\<close>, and \<open>None\<close> otherwise (\<^verbatim>\<open>NaN\<close> for \<^verbatim>\<open>"waste"\<close>, which has no second part).
  \<^verbatim>\<open>game.tableau[srcIdx]\<close> is \<^verbatim>\<open>undefined\<close> unless the number is an index of the array,
  and reading \<^verbatim>\<open>.cards\<close> of \<^verbatim>\<open>undefined\<close> throws a \<^verbatim>\<open>TypeError\<close>.
\<close>

type_synonym PileId = "string \<times> nat option"

datatype error = TypeError

definition pileAt :: "Pile list \<Rightarrow> nat option \<Rightarrow> error + Pile" where
  "pileAt piles idx =
     (case idx of
        None \<Rightarrow> Inl TypeError
      | Some n \<Rightarrow> if n < length piles then Inr (piles ! n) else Inl TypeError)"

text \<open>
  What a handler does: it throws, it returns without calling \<^verbatim>\<open>setGame\<close>
  (\<open>Inr None\<close>), or it calls \<^verbatim>\<open>setGame(ng)\<close> (\<open>Inr (Some ng)\<close>).
\<close>

type_synonym outcome = "error + GameState option"

text \<open>The state the component holds after the handler: only \<^verbatim>\<open>setGame\<close> replaces it.\<close>

definition stateAfter :: "GameState \<Rightarrow> outcome \<Rightarrow> GameState" where
  "stateAfter game out = (case out of Inr (Some ng) \<Rightarrow> ng | _ \<Rightarrow> game)"

section \<open>State transitions\<close>

definition handleStock :: "GameState \<Rightarrow> GameState" where
  "handleStock game =
     (if length (stock game) = 0 then
        game\<lparr>stock := map (\<lambda>c. c\<lparr>isFaceUp := False\<rparr>) (rev (waste game)), waste := []\<rparr>
      else
        (let c = last (stock game)
         in game\<lparr>stock := butlast (stock game),
                 waste := waste game @ [c\<lparr>isFaceUp := True\<rparr>]\<rparr>))"

text \<open>
  The source pile of \<^verbatim>\<open>moveCards\<close>: \<open>Inr None\<close> is the final \<^verbatim>\<open>else return\<close> of an
  unknown source type.
\<close>

definition srcPileOf :: "GameState \<Rightarrow> PileId \<Rightarrow> error + Pile option" where
  "srcPileOf game source =
     (case source of (srcType, srcIdx) \<Rightarrow>
        if srcType = ''waste'' then Inr (Some (waste game))
        else if srcType = ''tableau'' then map_sum id Some (pileAt (tableau game) srcIdx)
        else if srcType = ''foundation'' then map_sum id Some (pileAt (foundation game) srcIdx)
        else Inr None)"

text \<open>
  \<^verbatim>\<open>moving\<close>: for a waste or foundation source \<^verbatim>\<open>[srcPile[srcPile.length - 1]]\<close>, else
  \<^verbatim>\<open>srcPile.slice(idx)\<close>. On an empty waste or foundation pile the source builds
  \<^verbatim>\<open>[undefined]\<close>, whose first element is \<^verbatim>\<open>undefined\<close> as that of an empty slice is; both
  are the empty list here, and \<open>moveCards\<close> throws on it where the legality rule
  reads a field of \<^verbatim>\<open>first\<close>.
\<close>

definition movingOf :: "string \<Rightarrow> Pile \<Rightarrow> int \<Rightarrow> CardType list" where
  "movingOf srcType srcPile idx =
     (if srcType = ''waste'' \<or> srcType = ''foundation''
      then (if srcPile = [] then [] else [last srcPile])
      else sliceFrom srcPile idx)"

definition tgtPileOf :: "GameState \<Rightarrow> PileId \<Rightarrow> error + Pile" where
  "tgtPileOf game target =
     (case target of (tgtType, tgtIdx) \<Rightarrow>
        if tgtType = ''foundation'' then pileAt (foundation game) tgtIdx
        else pileAt (tableau game) tgtIdx)"

text \<open>The removal of the run from the copied state \<^verbatim>\<open>ng\<close>.\<close>

definition removeRun :: "GameState \<Rightarrow> PileId \<Rightarrow> int \<Rightarrow> GameState" where
  "removeRun ng source idx =
     (case source of (srcType, srcIdx) \<Rightarrow>
        if srcType = ''waste'' then ng\<lparr>waste := butlast (waste ng)\<rparr>
        else if srcType = ''tableau'' then
          ng\<lparr>tableau := (tableau ng)[the srcIdx := flipTop (spliceFrom (tableau ng ! the srcIdx) idx)]\<rparr>
        else ng\<lparr>foundation := (foundation ng)[the srcIdx := butlast (foundation ng ! the srcIdx)]\<rparr>)"

definition pushRun :: "GameState \<Rightarrow> PileId \<Rightarrow> CardType \<Rightarrow> CardType list \<Rightarrow> GameState" where
  "pushRun ng target first moving =
     (case target of (tgtType, tgtIdx) \<Rightarrow>
        if tgtType = ''foundation''
        then ng\<lparr>foundation := (foundation ng)[the tgtIdx := foundation ng ! the tgtIdx @ [first]]\<rparr>
        else ng\<lparr>tableau := (tableau ng)[the tgtIdx := tableau ng ! the tgtIdx @ moving]\<rparr>)"

text \<open>
  \<^verbatim>\<open>moveCards(card, source, idx, target)\<close>, the drop handler. The parameter \<^verbatim>\<open>card\<close> is
  not read by the source. \<open>removeRun\<close> and \<open>pushRun\<close> are reached only after both pile
  lookups succeeded, so \<open>the\<close> is applied to \<open>Some\<close> index inside the array.
\<close>

definition moveCards :: "GameState \<Rightarrow> CardType \<Rightarrow> PileId \<Rightarrow> int \<Rightarrow> PileId \<Rightarrow> outcome" where
  "moveCards game crd source idx target =
     (case srcPileOf game source of
        Inl e \<Rightarrow> Inl e
      | Inr None \<Rightarrow> Inr None
      | Inr (Some srcPile) \<Rightarrow>
          (let moving = movingOf (fst source) srcPile idx
           in case tgtPileOf game target of
                Inl e \<Rightarrow> Inl e
              | Inr tgtPile \<Rightarrow>
                  (case moving of
                     [] \<Rightarrow> Inl TypeError
                   | first # _ \<Rightarrow>
                       (let valid = (if fst target = ''foundation''
                                     then canMoveToFoundation first tgtPile
                                     else canMoveToTableau first tgtPile)
                        in if \<not> valid then Inr None
                           else Inr (Some (pushRun (removeRun game source idx) target first moving))))))"

text \<open>
  \<^verbatim>\<open>handleCardClick(card, source, index)\<close>, first loop body: foundation pile \<open>i\<close>
  accepts the card. A source that is not the waste is treated as a tableau pile:
  \<^verbatim>\<open>splice(index, 1)\<close> takes the one card out.
\<close>

definition clickToFoundation :: "GameState \<Rightarrow> CardType \<Rightarrow> PileId \<Rightarrow> int \<Rightarrow> nat \<Rightarrow> outcome" where
  "clickToFoundation game crd source index i =
     (case source of (srcType, srcIdx) \<Rightarrow>
        (case (if srcType = ''waste'' then Inr (game\<lparr>waste := butlast (waste game)\<rparr>)
               else (case pileAt (tableau game) srcIdx of
                       Inl e \<Rightarrow> Inl e
                     | Inr p \<Rightarrow>
                         Inr (game\<lparr>tableau := (tableau game)[the srcIdx := flipTop (spliceOne p index)]\<rparr>)))
         of Inl e \<Rightarrow> Inl e
          | Inr ng \<Rightarrow>
              Inr (Some (ng\<lparr>foundation := (foundation ng)[i := foundation ng ! i @ [crd]]\<rparr>))))"

text \<open>
  Second loop body: tableau pile \<open>i\<close> accepts the card. The removal treats a source
  that is neither the waste nor a tableau pile as a foundation pile; the pushed cards are
  \<^verbatim>\<open>[card]\<close> for a waste or foundation source and otherwise the slice of
  \<^verbatim>\<open>game.tableau[srcIdx].cards\<close> from \<^verbatim>\<open>index\<close>, each card turned face-up.
\<close>

definition clickToTableau :: "GameState \<Rightarrow> CardType \<Rightarrow> PileId \<Rightarrow> int \<Rightarrow> nat \<Rightarrow> outcome" where
  "clickToTableau game crd source index i =
     (case source of (srcType, srcIdx) \<Rightarrow>
        (case (if srcType = ''waste'' then Inr (game\<lparr>waste := butlast (waste game)\<rparr>)
               else if srcType = ''tableau'' then
                 (case pileAt (tableau game) srcIdx of
                    Inl e \<Rightarrow> Inl e
                  | Inr p \<Rightarrow>
                      Inr (game\<lparr>tableau := (tableau game)[the srcIdx := flipTop (spliceFrom p index)]\<rparr>))
               else
                 (case pileAt (foundation game) srcIdx of
                    Inl e \<Rightarrow> Inl e
                  | Inr p \<Rightarrow>
                      Inr (game\<lparr>foundation := (foundation game)[the srcIdx := butlast p]\<rparr>)))
         of Inl e \<Rightarrow> Inl e
          | Inr ng \<Rightarrow>
              (case (if srcType = ''waste'' then Inr [crd]
                     else if srcType = ''foundation'' then Inr [crd]
                     else map_sum id (\<lambda>p. map (\<lambda>c. c\<lparr>isFaceUp := True\<rparr>) (sliceFrom p index))
                            (pileAt (tableau game) srcIdx))
               of Inl e \<Rightarrow> Inl e
                | Inr pushed \<Rightarrow>
                    Inr (Some (ng\<lparr>tableau := (tableau ng)[i := tableau ng ! i @ pushed]\<rparr>)))))"

text \<open>The loop \<^verbatim>\<open>for (i = 0; i < game.tableau.length; i++)\<close>, returning at the first match.\<close>

function tableauSearch :: "GameState \<Rightarrow> CardType \<Rightarrow> PileId \<Rightarrow> int \<Rightarrow> nat \<Rightarrow> outcome" where
  "tableauSearch game crd source index i =
     (if i < length (tableau game) then
        (if canMoveToTableau crd (tableau game ! i)
         then clickToTableau game crd source index i
         else tableauSearch game crd source index (i + 1))
      else Inr None)"
  by pat_completeness auto
termination
  by (relation "measure (\<lambda>(game, crd, source, index, i). length (tableau game) - i)") auto

text \<open>
  The loop \<^verbatim>\<open>for (i = 0; i < game.foundation.length; i++)\<close>; when it ends without a
  match, control falls through to the tableau loop.
\<close>

function foundationSearch :: "GameState \<Rightarrow> CardType \<Rightarrow> PileId \<Rightarrow> int \<Rightarrow> nat \<Rightarrow> outcome" where
  "foundationSearch game crd source index i =
     (if i < length (foundation game) then
        (if canMoveToFoundation crd (foundation game ! i)
         then clickToFoundation game crd source index i
         else foundationSearch game crd source index (i + 1))
      else tableauSearch game crd source index 0)"
  by pat_completeness auto
termination
  by (relation "measure (\<lambda>(game, crd, source, index, i). length (foundation game) - i)") auto

definition handleCardClick :: "GameState \<Rightarrow> CardType \<Rightarrow> PileId \<Rightarrow> int \<Rightarrow> outcome" where
  "handleCardClick game crd source index =
     (if fst source \<noteq> ''foundation''
      then foundationSearch game crd source index 0
      else tableauSearch game crd source index 0)"

section \<open>Sequences of user intents\<close>

text \<open>
  The three events the board forwards to the handlers, with the arguments the handler
  receives: a click on the stock, a drop of a dragged run on a pile, a click on a card.
\<close>

datatype intent =
    Draw
  | Drop CardType PileId int PileId
  | Click CardType PileId int

fun step :: "GameState \<Rightarrow> intent \<Rightarrow> GameState" where
  "step game Draw = handleStock game"
| "step game (Drop crd source idx target) = stateAfter game (moveCards game crd source idx target)"
| "step game (Click crd source index) = stateAfter game (handleCardClick game crd source index)"

definition run :: "GameState \<Rightarrow> intent list \<Rightarrow> GameState" where
  "run game intents = foldl step game intents"

text \<open>All cards of a state, and the identity of a card: its suit and rank.\<close>

definition allCards :: "GameState \<Rightarrow> CardType list" where
  "allCards game = stock game @ waste game @ concat (foundation game) @ concat (tableau game)"

definition cardId :: "CardType \<Rightarrow> Suit \<times> Rank" where
  "cardId c = (suit c, rank c)"

definition cardIds :: "GameState \<Rightarrow> (Suit \<times> Rank) multiset" where
  "cardIds game = mset (map cardId (allCards game))"

section \<open>Auxiliary notions for the statements\<close>

definition turnedUp :: "CardType \<Rightarrow> CardType" where
  "turnedUp c = c\<lparr>isFaceUp := True\<rparr>"

definition turnedDown :: "CardType \<Rightarrow> CardType" where
  "turnedDown c = c\<lparr>isFaceUp := False\<rparr>"

definition mkCard :: "Suit \<Rightarrow> Rank \<Rightarrow> bool \<Rightarrow> CardType" where
  "mkCard s r f = \<lparr>suit = s, rank = r, isFaceUp = f\<rparr>"

text \<open>
  The rank order \<open>A < 2 < ... < K\<close> and the colours of the suits, as the specification
  names them; the source has neither as a function of its own.
\<close>

fun spec_rankValue :: "Rank \<Rightarrow> nat" where
  "spec_rankValue RA = 1"
| "spec_rankValue R2 = 2"
| "spec_rankValue R3 = 3"
| "spec_rankValue R4 = 4"
| "spec_rankValue R5 = 5"
| "spec_rankValue R6 = 6"
| "spec_rankValue R7 = 7"
| "spec_rankValue R8 = 8"
| "spec_rankValue R9 = 9"
| "spec_rankValue R10 = 10"
| "spec_rankValue RJ = 11"
| "spec_rankValue RQ = 12"
| "spec_rankValue RK = 13"

datatype Color = Red | Black

fun spec_color :: "Suit \<Rightarrow> Color" where
  "spec_color HEARTS = Red"
| "spec_color DIAMONDS = Red"
| "spec_color CLUBS = Black"
| "spec_color SPADES = Black"

text \<open>The sizes of the tableau piles, in pile order.\<close>

definition pileSizes :: "GameState \<Rightarrow> nat list" where
  "pileSizes game = map length (tableau game)"

text \<open>The shape of a freshly dealt state.\<close>

definition dealtShape :: "GameState \<Rightarrow> bool" where
  "dealtShape g \<longleftrightarrow>
     map length (tableau g) = [1, 2, 3, 4, 5, 6, 7] \<and>
     map (map isFaceUp) (tableau g) =
       [[True], [False, True], [False, False, True], [False, False, False, True],
        [False, False, False, False, True], [False, False, False, False, False, True],
        [False, False, False, False, False, False, True]] \<and>
     length (stock g) = 24 \<and> waste g = [] \<and> foundation g = [[], [], [], []]"

text \<open>
  A random source under which every swap of the shuffle is a swap of a position with
  itself, so that the shuffled deck is \<open>createDeck\<close>; and the state dealt from it.
\<close>

definition identityDraws :: "nat \<Rightarrow> nat" where
  "identityDraws i = i"

definition fixedDeal :: GameState where
  "fixedDeal =
     \<lparr>stock =
        [mkCard HEARTS RA False, mkCard HEARTS R2 False, mkCard HEARTS R3 False,
         mkCard HEARTS R4 False, mkCard HEARTS R5 False, mkCard HEARTS R6 False,
         mkCard HEARTS R7 False, mkCard HEARTS R8 False, mkCard HEARTS R9 False,
         mkCard HEARTS R10 False, mkCard HEARTS RJ False, mkCard HEARTS RQ False,
         mkCard HEARTS RK False, mkCard DIAMONDS RA False, mkCard DIAMONDS R2 False,
         mkCard DIAMONDS R3 False, mkCard DIAMONDS R4 False, mkCard DIAMONDS R5 False,
         mkCard DIAMONDS R6 False, mkCard DIAMONDS R7 False, mkCard DIAMONDS R8 False,
         mkCard DIAMONDS R9 False, mkCard DIAMONDS R10 False, mkCard DIAMONDS RJ False],
      waste = [],
      foundation = [[], [], [], []],
      tableau =
        [[mkCard SPADES RK True],
         [mkCard SPADES RQ False, mkCard SPADES R6 True],
         [mkCard SPADES RJ False, mkCard SPADES R5 False, mkCard CLUBS RK True],
         [mkCard SPADES R10 False, mkCard SPADES R4 False, mkCard CLUBS RQ False,
          mkCard CLUBS R8 True],
         [mkCard SPADES R9 False, mkCard SPADES R3 False, mkCard CLUBS RJ False,
          mkCard CLUBS R7 False, mkCard CLUBS R4 True],
         [mkCard SPADES R8 False, mkCard SPADES R2 False, mkCard CLUBS R10 False,
          mkCard CLUBS R6 False, mkCard CLUBS R3 False, mkCard CLUBS RA True],
         [mkCard SPADES R7 False, mkCard SPADES RA False, mkCard CLUBS R9 False,
          mkCard CLUBS R5 False, mkCard CLUBS R2 False, mkCard DIAMONDS RK False,
          mkCard DIAMONDS RQ True]]\<rparr>"

text \<open>A state with an empty stock and three cards on the waste.\<close>

definition recycleState :: GameState where
  "recycleState =
     \<lparr>stock = [],
      waste = [mkCard HEARTS R5 True, mkCard SPADES RK True, mkCard CLUBS R2 True],
      foundation = [[], [], [], []],
      tableau = [[], [], [], [], [], [], []]\<rparr>"

text \<open>
  A sequence of board events from \<open>fixedDeal\<close>, each a click on the stock or a drag of a
  face-up card: ten draws bring the 2 of diamonds to the waste top; the Ace of clubs goes
  from tableau pile 5 to foundation pile 0, the 2 of diamonds from the waste onto the 3 of
  clubs of tableau pile 5, the Ace of clubs back from the foundation onto that 2; one more
  draw and a drag put the Ace of diamonds on foundation pile 0. The last event drags the
  2 of diamonds, with the Ace of clubs on it, from tableau pile 5 to foundation pile 0.
\<close>

definition lossSetup :: "intent list" where
  "lossSetup =
     [Draw, Draw, Draw, Draw, Draw, Draw, Draw, Draw, Draw, Draw,
      Drop (mkCard CLUBS RA True) (''tableau'', Some 5) 5 (''foundation'', Some 0),
      Drop (mkCard DIAMONDS R2 True) (''waste'', None) 9 (''tableau'', Some 5),
      Drop (mkCard CLUBS RA True) (''foundation'', Some 0) 0 (''tableau'', Some 5),
      Draw,
      Drop (mkCard DIAMONDS RA True) (''waste'', None) 9 (''foundation'', Some 0)]"

definition lossDrop :: intent where
  "lossDrop = Drop (mkCard DIAMONDS R2 True) (''tableau'', Some 5) 5 (''foundation'', Some 0)"

definition lossRun :: "intent list" where
  "lossRun = lossSetup @ [lossDrop]"

section \<open>Notions for the statements about requests\<close>

text \<open>
  \<open>validIndex piles n\<close>: the number of a pile id is an index of the array of piles.
  \<open>knownSource\<close>: the three source types \<open>moveCards\<close> distinguishes. \<open>sourceExists\<close> and
  \<open>targetExists\<close>: the pile a pile id names is there. \<open>runOf\<close>: the cards a move request
  addresses: the top card of the waste or of a foundation pile, the cards of a tableau
  pile from the start index on; it is empty when the pile does not exist or holds no
  card there. \<open>legalMove\<close>: the legality rule of the target type, applied to the first
  card of the run. \<open>firstAccepting\<close>: the least index of a pile that accepts, in index
  order.
\<close>

definition validIndex :: "Pile list \<Rightarrow> nat option \<Rightarrow> bool" where
  "validIndex piles idx = (case idx of None \<Rightarrow> False | Some n \<Rightarrow> n < length piles)"

definition knownSource :: "string \<Rightarrow> bool" where
  "knownSource t \<longleftrightarrow> t = ''waste'' \<or> t = ''tableau'' \<or> t = ''foundation''"

definition sourceExists :: "GameState \<Rightarrow> PileId \<Rightarrow> bool" where
  "sourceExists game source =
     (case source of (t, n) \<Rightarrow>
        t = ''waste'' \<or> t = ''tableau'' \<and> validIndex (tableau game) n \<or>
        t = ''foundation'' \<and> validIndex (foundation game) n)"

definition targetExists :: "GameState \<Rightarrow> PileId \<Rightarrow> bool" where
  "targetExists game target =
     (case target of (t, n) \<Rightarrow>
        if t = ''foundation'' then validIndex (foundation game) n
        else validIndex (tableau game) n)"

definition targetPile :: "GameState \<Rightarrow> PileId \<Rightarrow> Pile" where
  "targetPile game target =
     (case target of (t, n) \<Rightarrow>
        if t = ''foundation'' then foundation game ! the n else tableau game ! the n)"

definition runOf :: "GameState \<Rightarrow> PileId \<Rightarrow> int \<Rightarrow> CardType list" where
  "runOf game source idx =
     (case source of (t, n) \<Rightarrow>
        if t = ''waste'' then (if waste game = [] then [] else [last (waste game)])
        else if t = ''tableau'' then
          (if validIndex (tableau game) n then sliceFrom (tableau game ! the n) idx else [])
        else if t = ''foundation'' then
          (if validIndex (foundation game) n \<and> foundation game ! the n \<noteq> []
           then [last (foundation game ! the n)] else [])
        else [])"

definition legalMove :: "GameState \<Rightarrow> PileId \<Rightarrow> int \<Rightarrow> PileId \<Rightarrow> bool" where
  "legalMove game source idx target =
     (if fst target = ''foundation''
      then canMoveToFoundation (hd (runOf game source idx)) (targetPile game target)
      else canMoveToTableau (hd (runOf game source idx)) (targetPile game target))"

definition firstAccepting :: "(Pile \<Rightarrow> bool) \<Rightarrow> Pile list \<Rightarrow> nat option" where
  "firstAccepting accepts piles = find (\<lambda>i. accepts (piles ! i)) [0..<length piles]"

text \<open>
  Board events from \<open>fixedDeal\<close> that empty tableau pile 1 and put the Queen of diamonds
  on the King of spades of tableau pile 0: five draws, then clicks on the 7 of diamonds
  (waste), the 6 of spades, the Queen of diamonds and the Queen of spades.
\<close>

definition suffixSetup :: "intent list" where
  "suffixSetup =
     [Draw, Draw, Draw, Draw, Draw,
      Click (mkCard DIAMONDS R7 True) (''waste'', None) 4,
      Click (mkCard SPADES R6 True) (''tableau'', Some 1) 1,
      Click (mkCard DIAMONDS RQ True) (''tableau'', Some 6) 6,
      Click (mkCard SPADES RQ True) (''tableau'', Some 1) 0]"


text \<open>The identities of the cards of a list, as a multiset.\<close>

definition pileIds :: "CardType list \<Rightarrow> (Suit \<times> Rank) multiset" where
  "pileIds xs = mset (map cardId xs)"

section \<open>Deck and deal\<close>

declare dealRow.simps [simp del] dealLoop.simps [simp del]
declare tableauSearch.simps [simp del] foundationSearch.simps [simp del]

lemma shuffleLoop_mset:
  "k < length arr \<or> k = 0 \<Longrightarrow> mset (shuffleLoop rnd arr k) = mset arr"
proof (induction k arbitrary: arr)
  case 0
  then show ?case by simp
next
  case (Suc k)
  let ?j = "rnd (Suc k) mod (Suc k + 1)"
  have i: "Suc k < length arr" using Suc.prems by simp
  have "?j < Suc k + 1" by simp
  then have j: "?j < length arr" using i by linarith
  have "mset (arr[Suc k := arr ! ?j, ?j := arr ! Suc k]) = mset arr"
    using mset_swap [OF j i] .
  moreover have "k < length (arr[Suc k := arr ! ?j, ?j := arr ! Suc k])"
    using i by simp
  ultimately show ?case
    using Suc.IH [of "arr[Suc k := arr ! ?j, ?j := arr ! Suc k]"] by (simp add: Let_def)
qed

lemma shuffleDeck_mset: "mset (shuffleDeck rnd deck) = mset deck"
  unfolding shuffleDeck_def by (rule shuffleLoop_mset) (cases deck; simp)

lemma shuffleDeck_length: "length (shuffleDeck rnd deck) = length deck"
  using shuffleDeck_mset [of rnd deck] by (metis size_mset)

lemma shuffleDeck_set: "set (shuffleDeck rnd deck) = set deck"
  using shuffleDeck_mset [of rnd deck] by (metis set_mset_mset)

lemma shuffleLoop_identity: "shuffleLoop identityDraws arr k = arr"
  by (induction k arbitrary: arr) (simp_all add: Let_def identityDraws_def)

lemma length_createDeck: "length createDeck = 52"
  by (simp add: createDeck_def SUITS_def RANKS_def)

lemma createDeck_face_down: "c \<in> set createDeck \<Longrightarrow> \<not> isFaceUp c"
  by (auto simp add: createDeck_def SUITS_def RANKS_def)

lemma list28:
  "length xs = 28 \<Longrightarrow>
   \<exists>x28 x27 x26 x25 x24 x23 x22 x21 x20 x19 x18 x17 x16 x15 x14 x13 x12 x11 x10 x9 x8 x7 x6 x5 x4 x3 x2 x1.
     xs = [x28, x27, x26, x25, x24, x23, x22, x21, x20, x19, x18, x17, x16, x15,
           x14, x13, x12, x11, x10, x9, x8, x7, x6, x5, x4, x3, x2, x1]"
  by (simp add: numeral_eq_Suc length_Suc_conv) (elim exE conjE, simp)

text \<open>The deal on a deck whose last 28 cards are named: \<open>x1\<close> is popped first.\<close>

lemma dealLoop_28:
  "dealLoop 0 (st @ [x28, x27, x26, x25, x24, x23, x22, x21, x20, x19, x18, x17, x16, x15,
                      x14, x13, x12, x11, x10, x9, x8, x7, x6, x5, x4, x3, x2, x1],
               [[], [], [], [], [], [], []]) =
   Some (st,
     [[turnedUp x1],
      [turnedDown x2, turnedUp x8],
      [turnedDown x3, turnedDown x9, turnedUp x14],
      [turnedDown x4, turnedDown x10, turnedDown x15, turnedUp x19],
      [turnedDown x5, turnedDown x11, turnedDown x16, turnedDown x20, turnedUp x23],
      [turnedDown x6, turnedDown x12, turnedDown x17, turnedDown x21, turnedDown x24, turnedUp x26],
      [turnedDown x7, turnedDown x13, turnedDown x18, turnedDown x22, turnedDown x25,
       turnedDown x27, turnedUp x28]])"
  by (simp add: dealLoop.simps dealRow.simps popCard_def turnedUp_def turnedDown_def butlast_append)

lemma deal_52:
  assumes "length deck = 52"
  shows "\<exists>g. deal deck = Some g \<and> dealtShape g \<and> stock g = take 24 deck \<and>
             cardIds g = mset (map cardId deck)"
proof -
  have "length (drop 24 deck) = 28" using assms by simp
  from list28 [OF this] obtain x28 x27 x26 x25 x24 x23 x22 x21 x20 x19 x18 x17 x16 x15
      x14 x13 x12 x11 x10 x9 x8 x7 x6 x5 x4 x3 x2 x1
    where d: "drop 24 deck = [x28, x27, x26, x25, x24, x23, x22, x21, x20, x19, x18, x17, x16, x15,
           x14, x13, x12, x11, x10, x9, x8, x7, x6, x5, x4, x3, x2, x1]"
    by (elim exE) (erule meta_mp [rotated], assumption)
  have split: "deck = take 24 deck @ [x28, x27, x26, x25, x24, x23, x22, x21, x20, x19, x18, x17, x16, x15,
           x14, x13, x12, x11, x10, x9, x8, x7, x6, x5, x4, x3, x2, x1]"
    using d append_take_drop_id [of 24 deck] by simp
  have r7: "replicate 7 [] = [[], [], [], [], [], [], [] :: CardType list]"
    by (simp add: numeral_eq_Suc)
  have r4: "replicate 4 [] = [[], [], [], [] :: CardType list]"
    by (simp add: numeral_eq_Suc)
  have lt: "length (take 24 deck) = 24" using assms by simp
  let ?tab = "[[turnedUp x1],
      [turnedDown x2, turnedUp x8],
      [turnedDown x3, turnedDown x9, turnedUp x14],
      [turnedDown x4, turnedDown x10, turnedDown x15, turnedUp x19],
      [turnedDown x5, turnedDown x11, turnedDown x16, turnedDown x20, turnedUp x23],
      [turnedDown x6, turnedDown x12, turnedDown x17, turnedDown x21, turnedDown x24, turnedUp x26],
      [turnedDown x7, turnedDown x13, turnedDown x18, turnedDown x22, turnedDown x25,
       turnedDown x27, turnedUp x28]]"
  let ?g = "\<lparr>stock = take 24 deck, waste = [], foundation = replicate 4 [], tableau = ?tab\<rparr>"
  have dl: "dealLoop 0 (deck, replicate 7 []) = Some (take 24 deck, ?tab)"
    unfolding r7 by (subst split) (rule dealLoop_28)
  have ids: "cardId (turnedUp c) = cardId c" "cardId (turnedDown c) = cardId c" for c
    by (simp_all add: cardId_def turnedUp_def turnedDown_def)
  have 1: "deal deck = Some ?g"
    unfolding deal_def dl by simp
  have 2: "dealtShape ?g"
    using lt by (simp add: dealtShape_def r4 turnedUp_def turnedDown_def)
  have "mset (map cardId deck) = mset (map cardId (take 24 deck)) +
      mset (map cardId [x28, x27, x26, x25, x24, x23, x22, x21, x20, x19, x18, x17, x16, x15,
           x14, x13, x12, x11, x10, x9, x8, x7, x6, x5, x4, x3, x2, x1])"
    by (subst split) simp
  then have 3: "cardIds ?g = mset (map cardId deck)"
    by (simp add: cardIds_def allCards_def ids)
  show ?thesis
    using 1 2 3 by (intro exI [of _ ?g]) simp
qed

text \<open>Every game start: the deal succeeds, has the dealt shape, and holds the deck.\<close>

lemma initializeGame_dealt:
  "\<exists>g. initializeGame rnd = Some g \<and> dealtShape g \<and>
       (\<forall>c \<in> set (stock g). \<not> isFaceUp c) \<and>
       cardIds g = mset (map cardId createDeck)"
proof -
  let ?deck = "shuffleDeck rnd createDeck"
  have "length ?deck = 52"
    by (simp add: shuffleDeck_length length_createDeck)
  from deal_52 [OF this] obtain g where g: "deal ?deck = Some g" "dealtShape g"
    "stock g = take 24 ?deck" "cardIds g = mset (map cardId ?deck)" by blast
  have "\<forall>c \<in> set (stock g). \<not> isFaceUp c"
    using g(3) createDeck_face_down shuffleDeck_set [of rnd createDeck]
    by (metis in_set_takeD)
  moreover have "mset (map cardId ?deck) = mset (map cardId createDeck)"
    using shuffleDeck_mset [of rnd createDeck] by (metis mset_map)
  ultimately show ?thesis
    using g by (simp add: initializeGame_def)
qed

lemma initializeGame_identity: "initializeGame identityDraws = Some fixedDeal"
proof -
  have "shuffleDeck identityDraws createDeck = createDeck"
    by (simp add: shuffleDeck_def shuffleLoop_identity)
  moreover have "deal createDeck = Some fixedDeal"
    by (simp add: deal_def createDeck_def SUITS_def RANKS_def fixedDeal_def mkCard_def
        dealLoop.simps dealRow.simps popCard_def numeral_eq_Suc)
  ultimately show ?thesis
    by (simp add: initializeGame_def)
qed

text \<open>
  Claim C8. Whatever the shuffle draws, the game start yields a state whose tableau pile
  sizes are 1, 2, 3, 4, 5, 6, 7 in pile order, in which the last card of each pile is the
  only face-up one, and whose stock has exactly 24 cards.
\<close>

theorem initializeGame_shape:
  "\<exists>g. initializeGame rnd = Some g \<and>
       map length (tableau g) = [1, 2, 3, 4, 5, 6, 7] \<and>
       map (map isFaceUp) (tableau g) =
         [[True], [False, True], [False, False, True], [False, False, False, True],
          [False, False, False, False, True], [False, False, False, False, False, True],
          [False, False, False, False, False, False, True]] \<and>
       length (stock g) = 24"
proof -
  from initializeGame_dealt [of rnd] obtain g
    where g: "initializeGame rnd = Some g" "dealtShape g" by blast
  show ?thesis
    using g(2) unfolding dealtShape_def by (intro exI [of _ g] conjI g(1)) simp_all
qed

lemma faces_last:
  assumes "map isFaceUp p = fs @ [True]" "\<forall>f \<in> set fs. \<not> f"
  shows "isFaceUp (last p) \<and> (\<forall>c \<in> set (butlast p). \<not> isFaceUp c)"
proof -
  have ne: "p \<noteq> []" using assms(1) by auto
  have "isFaceUp (last p) = last (map isFaceUp p)"
    using ne by (simp add: last_map)
  then have 1: "isFaceUp (last p)" using assms(1) by simp
  have "map isFaceUp (butlast p) = butlast (map isFaceUp p)"
    by (simp add: map_butlast)
  then have "map isFaceUp (butlast p) = fs" using assms(1) by simp
  then have "isFaceUp ` set (butlast p) = set fs" by (metis set_map)
  then have 2: "\<forall>c \<in> set (butlast p). \<not> isFaceUp c"
    using assms(2) by blast
  show ?thesis using 1 2 by simp
qed

text \<open>
  Claim C7, as stated, fails: under the identity shuffle the pile sizes are
  1, 2, ..., 7 and not \<open>7 - i\<close> for pile \<open>i\<close>.
\<close>

theorem deal_pile_counts_counterexample:
  "initializeGame identityDraws = Some fixedDeal \<and>
   pileSizes fixedDeal = [1, 2, 3, 4, 5, 6, 7] \<and>
   pileSizes fixedDeal \<noteq> [7 - 0, 7 - 1, 7 - 2, 7 - 3, 7 - 4, 7 - 5, 7 - 6]"
  by (simp add: initializeGame_identity) (simp add: pileSizes_def fixedDeal_def)

text \<open>
  The dealt state in terms of the positions of the deck: the last card of the deck is
  popped first.
\<close>

lemma deal_positions:
  assumes "length deck = 52"
  shows "deal deck =
    Some \<lparr>stock = take 24 deck, waste = [], foundation = [[], [], [], []],
      tableau =
     [[turnedUp (deck ! 51)],
      [turnedDown (deck ! 50), turnedUp (deck ! 44)],
      [turnedDown (deck ! 49), turnedDown (deck ! 43), turnedUp (deck ! 38)],
      [turnedDown (deck ! 48), turnedDown (deck ! 42), turnedDown (deck ! 37), turnedUp (deck ! 33)],
      [turnedDown (deck ! 47), turnedDown (deck ! 41), turnedDown (deck ! 36), turnedDown (deck ! 32), turnedUp (deck ! 29)],
      [turnedDown (deck ! 46), turnedDown (deck ! 40), turnedDown (deck ! 35), turnedDown (deck ! 31), turnedDown (deck ! 28), turnedUp (deck ! 26)],
      [turnedDown (deck ! 45), turnedDown (deck ! 39), turnedDown (deck ! 34), turnedDown (deck ! 30), turnedDown (deck ! 27), turnedDown (deck ! 25), turnedUp (deck ! 24)]]\<rparr>"
proof -
  have "length (drop 24 deck) = 28" using assms by simp
  from list28 [OF this] obtain x28 x27 x26 x25 x24 x23 x22 x21 x20 x19 x18 x17 x16 x15 x14 x13 x12 x11 x10 x9 x8 x7 x6 x5 x4 x3 x2 x1
    where d: "drop 24 deck = [x28, x27, x26, x25, x24, x23, x22, x21, x20, x19, x18, x17, x16, x15, x14, x13, x12, x11, x10, x9, x8, x7, x6, x5, x4, x3, x2, x1]"
    by (elim exE) (erule meta_mp [rotated], assumption)
  have n: "deck ! (24 + j) = drop 24 deck ! j" for j
    using assms by simp
  have e: "x1 = deck ! 51" "x2 = deck ! 50" "x3 = deck ! 49" "x4 = deck ! 48" "x5 = deck ! 47" "x6 = deck ! 46" "x7 = deck ! 45" "x8 = deck ! 44" "x9 = deck ! 43" "x10 = deck ! 42" "x11 = deck ! 41" "x12 = deck ! 40" "x13 = deck ! 39" "x14 = deck ! 38" "x15 = deck ! 37" "x16 = deck ! 36" "x17 = deck ! 35" "x18 = deck ! 34" "x19 = deck ! 33" "x20 = deck ! 32" "x21 = deck ! 31" "x22 = deck ! 30" "x23 = deck ! 29" "x24 = deck ! 28" "x25 = deck ! 27" "x26 = deck ! 26" "x27 = deck ! 25" "x28 = deck ! 24"
    using n [of 27] n [of 26] n [of 25] n [of 24] n [of 23] n [of 22] n [of 21] n [of 20] n [of 19] n [of 18] n [of 17] n [of 16] n [of 15] n [of 14] n [of 13] n [of 12] n [of 11] n [of 10] n [of 9] n [of 8] n [of 7] n [of 6] n [of 5] n [of 4] n [of 3] n [of 2] n [of 1] n [of 0] unfolding d by simp_all
  have split: "deck = take 24 deck @ [x28, x27, x26, x25, x24, x23, x22, x21, x20, x19, x18, x17, x16, x15, x14, x13, x12, x11, x10, x9, x8, x7, x6, x5, x4, x3, x2, x1]"
    using d append_take_drop_id [of 24 deck] by simp
  have r7: "replicate 7 [] = [[], [], [], [], [], [], [] :: CardType list]"
    by (simp add: numeral_eq_Suc)
  have r4: "replicate 4 [] = [[], [], [], [] :: CardType list]"
    by (simp add: numeral_eq_Suc)
  have dl: "dealLoop 0 (deck, replicate 7 []) = Some (take 24 deck,
     [[turnedUp x1],
      [turnedDown x2, turnedUp x8],
      [turnedDown x3, turnedDown x9, turnedUp x14],
      [turnedDown x4, turnedDown x10, turnedDown x15, turnedUp x19],
      [turnedDown x5, turnedDown x11, turnedDown x16, turnedDown x20, turnedUp x23],
      [turnedDown x6, turnedDown x12, turnedDown x17, turnedDown x21, turnedDown x24, turnedUp x26],
      [turnedDown x7, turnedDown x13, turnedDown x18, turnedDown x22, turnedDown x25, turnedDown x27, turnedUp x28]])"
    unfolding r7 by (subst split) (rule dealLoop_28)
  show ?thesis
    unfolding deal_def dl by (simp add: r4 e)
qed

lemma pass_starts:
  "(\<Sum>m<(0::nat). 7 - m) = 0"
  "(\<Sum>m<(1::nat). 7 - m) = 7"
  "(\<Sum>m<(2::nat). 7 - m) = 13"
  "(\<Sum>m<(3::nat). 7 - m) = 18"
  "(\<Sum>m<(4::nat). 7 - m) = 22"
  "(\<Sum>m<(5::nat). 7 - m) = 25"
  "(\<Sum>m<(6::nat). 7 - m) = 27"
  by (simp_all add: eval_nat_numeral)

text \<open>
  Claim C7, as amended. In the deal performed at game start, tableau pile \<open>i\<close> receives
  \<open>i + 1\<close> cards for \<open>i = 0..6\<close>, taken from the end of the shuffled deck: for
  \<open>k = 0..i\<close> its card \<open>k\<close> is the card at position \<open>51 - ((\<Sum>m<k. 7 - m) + (i - k))\<close> of
  the shuffled deck, face-up iff \<open>k = i\<close>. So only the last card dealt to each pile is
  face-up. The remaining 24 cards, the first 24 of the shuffled deck in their order,
  are the face-down stock. The shuffled deck is a permutation of the 52 cards of
  \<open>createDeck\<close>.
\<close>

theorem deal_pile_counts:
  assumes "initializeGame rnd = Some g" and "i < 7"
  shows "length (tableau g ! i) = i + 1 \<and>
         (\<forall>k \<le> i. tableau g ! i ! k =
            (shuffleDeck rnd createDeck ! (51 - ((\<Sum>m<k. 7 - m) + (i - k))))\<lparr>isFaceUp := (k = i)\<rparr>) \<and>
         isFaceUp (last (tableau g ! i)) \<and>
         (\<forall>c \<in> set (butlast (tableau g ! i)). \<not> isFaceUp c) \<and>
         stock g = take 24 (shuffleDeck rnd createDeck) \<and>
         length (stock g) = 24 \<and>
         (\<forall>c \<in> set (stock g). \<not> isFaceUp c) \<and>
         mset (shuffleDeck rnd createDeck) = mset createDeck"
proof -
  let ?deck = "shuffleDeck rnd createDeck"
  have l52: "length ?deck = 52"
    by (simp add: shuffleDeck_length length_createDeck)
  have "deal ?deck = Some g"
    using assms(1) by (simp add: initializeGame_def)
  then have tab: "tableau g =
     [[turnedUp (?deck ! 51)],
      [turnedDown (?deck ! 50), turnedUp (?deck ! 44)],
      [turnedDown (?deck ! 49), turnedDown (?deck ! 43), turnedUp (?deck ! 38)],
      [turnedDown (?deck ! 48), turnedDown (?deck ! 42), turnedDown (?deck ! 37), turnedUp (?deck ! 33)],
      [turnedDown (?deck ! 47), turnedDown (?deck ! 41), turnedDown (?deck ! 36), turnedDown (?deck ! 32), turnedUp (?deck ! 29)],
      [turnedDown (?deck ! 46), turnedDown (?deck ! 40), turnedDown (?deck ! 35), turnedDown (?deck ! 31), turnedDown (?deck ! 28), turnedUp (?deck ! 26)],
      [turnedDown (?deck ! 45), turnedDown (?deck ! 39), turnedDown (?deck ! 34), turnedDown (?deck ! 30), turnedDown (?deck ! 27), turnedDown (?deck ! 25), turnedUp (?deck ! 24)]]"
    and stk: "stock g = take 24 ?deck"
    using deal_positions [OF l52] by auto
  from initializeGame_dealt [of rnd] assms(1)
  have sh: "dealtShape g" and st: "\<forall>c \<in> set (stock g). \<not> isFaceUp c"
    by auto
  have len: "map length (tableau g) = [1, 2, 3, 4, 5, 6, 7]"
    and faces: "map (map isFaceUp) (tableau g) =
       [[True], [False, True], [False, False, True], [False, False, False, True],
        [False, False, False, False, True], [False, False, False, False, False, True],
        [False, False, False, False, False, False, True]]"
    and sl: "length (stock g) = 24"
    using sh by (simp_all add: dealtShape_def)
  have "length (map length (tableau g)) = 7"
    unfolding len by simp
  then have n: "length (tableau g) = 7" by simp
  have li: "length (tableau g ! i) = map length (tableau g) ! i"
    using n assms(2) by simp
  have fi: "map isFaceUp (tableau g ! i) = map (map isFaceUp) (tableau g) ! i"
    using n assms(2) by simp
  have i_cases: "i = 0 \<or> i = 1 \<or> i = 2 \<or> i = 3 \<or> i = 4 \<or> i = 5 \<or> i = 6"
    using assms(2) by arith
  have 1: "length (tableau g ! i) = i + 1"
    unfolding li len using i_cases by auto
  have fm: "map isFaceUp (tableau g ! i) = replicate i False @ [True]"
    unfolding fi faces using i_cases by (elim disjE) (simp_all add: eval_nat_numeral)
  have 2: "isFaceUp (last (tableau g ! i)) \<and> (\<forall>c \<in> set (butlast (tableau g ! i)). \<not> isFaceUp c)"
    by (rule faces_last [OF fm]) simp
  have 3: "tableau g ! i ! k =
      (?deck ! (51 - ((\<Sum>m<k. 7 - m) + (i - k))))\<lparr>isFaceUp := (k = i)\<rparr>" if "k \<le> i" for k
  proof -
    have k_cases: "k = 0 \<or> k = 1 \<or> k = 2 \<or> k = 3 \<or> k = 4 \<or> k = 5 \<or> k = 6"
      using that assms(2) by arith
    show ?thesis
      using i_cases k_cases that unfolding tab
      by (elim disjE) (simp_all add: pass_starts turnedUp_def turnedDown_def)
  qed
  have 4: "mset ?deck = mset createDeck"
    by (rule shuffleDeck_mset)
  show ?thesis using 1 2 3 4 sl st stk by simp
qed

theorem deal_pile_counts_witness:
  "initializeGame identityDraws = Some fixedDeal \<and> (3::nat) < 7 \<and>
   length (tableau fixedDeal ! 3) = 3 + 1 \<and>
   tableau fixedDeal ! 3 ! 2 = (shuffleDeck identityDraws createDeck ! 37)\<lparr>isFaceUp := False\<rparr> \<and>
   tableau fixedDeal ! 3 ! 3 = (shuffleDeck identityDraws createDeck ! 33)\<lparr>isFaceUp := True\<rparr> \<and>
   isFaceUp (last (tableau fixedDeal ! 3)) \<and>
   stock fixedDeal = take 24 (shuffleDeck identityDraws createDeck) \<and>
   length (stock fixedDeal) = 24"
proof -
  have lt: "(3::nat) < 7" by simp
  note T = deal_pile_counts [OF initializeGame_identity lt]
  have a: "(2::nat) \<le> 3" "(3::nat) \<le> 3" by simp_all
  have "tableau fixedDeal ! 3 ! 2 =
      (shuffleDeck identityDraws createDeck ! (51 - ((\<Sum>m<(2::nat). 7 - m) + (3 - 2))))\<lparr>isFaceUp := (2 = (3::nat))\<rparr>"
    by (rule T [THEN conjunct2, THEN conjunct1, rule_format, OF a(1)])
  then have 1: "tableau fixedDeal ! 3 ! 2 = (shuffleDeck identityDraws createDeck ! 37)\<lparr>isFaceUp := False\<rparr>"
    by (simp add: pass_starts)
  have "tableau fixedDeal ! 3 ! 3 =
      (shuffleDeck identityDraws createDeck ! (51 - ((\<Sum>m<(3::nat). 7 - m) + (3 - 3))))\<lparr>isFaceUp := (3 = (3::nat))\<rparr>"
    by (rule T [THEN conjunct2, THEN conjunct1, rule_format, OF a(2)])
  then have 2: "tableau fixedDeal ! 3 ! 3 = (shuffleDeck identityDraws createDeck ! 33)\<lparr>isFaceUp := True\<rparr>"
    by (simp add: pass_starts)
  have 3: "length (tableau fixedDeal ! 3) = 3 + 1"
    by (rule T [THEN conjunct1])
  have 4: "isFaceUp (last (tableau fixedDeal ! 3))"
    by (rule T [THEN conjunct2, THEN conjunct2, THEN conjunct1])
  have 5: "stock fixedDeal = take 24 (shuffleDeck identityDraws createDeck)"
    by (rule T [THEN conjunct2, THEN conjunct2, THEN conjunct2, THEN conjunct2, THEN conjunct1])
  have 6: "length (stock fixedDeal) = 24"
    by (rule T [THEN conjunct2, THEN conjunct2, THEN conjunct2, THEN conjunct2, THEN conjunct2,
        THEN conjunct1])
  show ?thesis
    by (intro conjI initializeGame_identity lt 1 2 3 4 5 6)
qed

section \<open>Legality rules\<close>

lemma indexOf_RANKS: "indexOf RANKS r = int (spec_rankValue r) - 1"
  by (cases r) (simp_all add: RANKS_def)

lemma spec_color_neq:
  "(spec_color s \<noteq> spec_color t) =
   ((s = HEARTS \<or> s = DIAMONDS) \<noteq> (t = HEARTS \<or> t = DIAMONDS))"
  by (cases s; cases t) simp_all

lemma spec_rankValue_RA: "(spec_rankValue r = Suc 0) = (r = RA)"
  by (cases r) simp_all

lemma spec_rankValue_RK: "(spec_rankValue r = 13) = (r = RK)"
  by (cases r) simp_all

text \<open>
  Claim C9. \<open>canMoveToFoundation\<close> holds iff the pile is empty and the card is an Ace, or
  the pile is non-empty, the card has the suit of the top card and its rank is exactly one
  above the top card's; \<open>canMoveToTableau\<close> holds iff the pile is empty and the card is a
  King, or the pile is non-empty, the card's colour differs from the top card's and its
  rank is exactly one below the top card's. Ranks are ordered \<open>A < 2 < ... < K\<close>; hearts
  and diamonds are red, clubs and spades black.
\<close>

theorem legality_rules:
  "(canMoveToFoundation c pile \<longleftrightarrow>
      (pile = [] \<and> rank c = RA) \<or>
      (pile \<noteq> [] \<and> suit c = suit (last pile) \<and>
       spec_rankValue (rank c) = spec_rankValue (rank (last pile)) + 1)) \<and>
   (canMoveToTableau c pile \<longleftrightarrow>
      (pile = [] \<and> rank c = RK) \<or>
      (pile \<noteq> [] \<and> spec_color (suit c) \<noteq> spec_color (suit (last pile)) \<and>
       spec_rankValue (rank c) + 1 = spec_rankValue (rank (last pile))))"
  by (auto simp add: canMoveToFoundation_def canMoveToTableau_def indexOf_RANKS
      spec_color_neq Let_def)

theorem legality_rules_witness:
  "canMoveToFoundation (mkCard HEARTS R2 True) [mkCard HEARTS RA True] \<and>
   \<not> canMoveToFoundation (mkCard HEARTS R2 True) [] \<and>
   canMoveToTableau (mkCard HEARTS R7 True) [mkCard SPADES R8 True] \<and>
   \<not> canMoveToTableau (mkCard SPADES R7 True) [mkCard CLUBS R8 True]"
  using legality_rules [of "mkCard HEARTS R2 True" "[mkCard HEARTS RA True]"]
    legality_rules [of "mkCard HEARTS R2 True" "[]"]
    legality_rules [of "mkCard HEARTS R7 True" "[mkCard SPADES R8 True]"]
    legality_rules [of "mkCard SPADES R7 True" "[mkCard CLUBS R8 True]"]
  by (simp add: mkCard_def)

section \<open>Drawing from the stock\<close>

text \<open>
  Claim C4. On a non-empty stock \<open>handleStock\<close> pops the top stock card and pushes it,
  face-up, onto the waste. On an empty stock it recycles: the stock becomes the reversed
  waste with every card face-down, and the waste becomes empty. The operation has no
  failing branch: it yields a state for every state, and the state itself when both stock
  and waste are empty. Foundation and tableau are never touched.
\<close>

theorem handleStock_draw_recycle:
  "(stock g \<noteq> [] \<longrightarrow>
      stock (handleStock g) = butlast (stock g) \<and>
      waste (handleStock g) = waste g @ [(last (stock g))\<lparr>isFaceUp := True\<rparr>]) \<and>
   (stock g = [] \<longrightarrow>
      waste (handleStock g) = [] \<and>
      length (stock (handleStock g)) = length (waste g) \<and>
      (\<forall>k < length (waste g).
         stock (handleStock g) ! k =
           (waste g ! (length (waste g) - 1 - k))\<lparr>isFaceUp := False\<rparr>)) \<and>
   foundation (handleStock g) = foundation g \<and>
   tableau (handleStock g) = tableau g \<and>
   (stock g = [] \<and> waste g = [] \<longrightarrow> handleStock g = g)"
  by (auto simp add: handleStock_def Let_def rev_nth)

theorem handleStock_draw_recycle_witness:
  "stock fixedDeal \<noteq> [] \<and>
   length (stock (handleStock fixedDeal)) = 23 \<and>
   waste (handleStock fixedDeal) = [mkCard DIAMONDS RJ True] \<and>
   stock recycleState = [] \<and>
   waste (handleStock recycleState) = [] \<and>
   length (stock (handleStock recycleState)) = 3 \<and>
   stock (handleStock recycleState) ! 0 = mkCard CLUBS R2 False \<and>
   stock (handleStock (recycleState\<lparr>waste := []\<rparr>)) = [] \<and>
   handleStock (recycleState\<lparr>waste := []\<rparr>) = recycleState\<lparr>waste := []\<rparr>"
  using handleStock_draw_recycle [of fixedDeal] handleStock_draw_recycle [of recycleState]
    handleStock_draw_recycle [of "recycleState\<lparr>waste := []\<rparr>"]
  by (simp add: fixedDeal_def recycleState_def mkCard_def)

section \<open>Card conservation\<close>

lemmas handler_defs = handleStock_def moveCards_def spliceOne_def srcPileOf_def movingOf_def tgtPileOf_def
  removeRun_def pushRun_def pileAt_def stateAfter_def sliceFrom_def spliceFrom_def relStart_def
  flipTop_def canMoveToFoundation_def canMoveToTableau_def RANKS_def Let_def

lemma fixedDeal_cardIds: "cardIds fixedDeal = mset (map cardId createDeck)"
  using initializeGame_dealt [of identityDraws] by (simp add: initializeGame_identity)

text \<open>
  Claim C1, evaluated on the code. The state \<open>run fixedDeal lossRun\<close> is reached from a
  game start by draws and drops; it holds 51 cards, and the Ace of clubs is in none of
  its piles: the drop of a two-card tableau run on a foundation pile removed both cards
  from the tableau and pushed only the first.
\<close>

theorem card_conservation_broken:
  "initializeGame identityDraws = Some fixedDeal \<and>
   cardIds fixedDeal = mset (map cardId createDeck) \<and>
   length (allCards (run fixedDeal lossRun)) = 51 \<and>
   count (cardIds (run fixedDeal lossRun)) (CLUBS, RA) = 0 \<and>
   cardIds (run fixedDeal lossRun) \<noteq> mset (map cardId createDeck)"
proof -
  have 1: "length (allCards (run fixedDeal lossRun)) = 51"
    by (simp add: run_def lossRun_def lossSetup_def lossDrop_def fixedDeal_def mkCard_def
        handler_defs allCards_def)
  have 2: "count (cardIds (run fixedDeal lossRun)) (CLUBS, RA) = 0"
    by (simp add: run_def lossRun_def lossSetup_def lossDrop_def fixedDeal_def mkCard_def
        handler_defs allCards_def cardIds_def cardId_def)
  have "size (cardIds (run fixedDeal lossRun)) = 51"
    using 1 by (simp add: cardIds_def)
  moreover have "size (mset (map cardId createDeck)) = 52"
    by (simp add: length_createDeck)
  ultimately have 3: "cardIds (run fixedDeal lossRun) \<noteq> mset (map cardId createDeck)"
    by auto
  show ?thesis
    using initializeGame_identity fixedDeal_cardIds 1 2 3 by simp
qed

text \<open>
  Claim C2, evaluated on the code at the last drop of that sequence. The run from index 5
  of tableau pile 5 is the 2 of diamonds with the Ace of clubs on it; foundation pile 0
  holds the Ace of diamonds and accepts the 2. After the drop the run is gone from the
  tableau pile, and the foundation pile has received the first card only.
\<close>

theorem moveCards_run_to_foundation_drops_cards:
  "sliceFrom (tableau (run fixedDeal lossSetup) ! 5) 5 =
     [mkCard DIAMONDS R2 True, mkCard CLUBS RA True] \<and>
   foundation (run fixedDeal lossSetup) ! 0 = [mkCard DIAMONDS RA True] \<and>
   length (tableau (run fixedDeal lossSetup) ! 5) = 7 \<and>
   length (tableau (step (run fixedDeal lossSetup) lossDrop) ! 5) = 5 \<and>
   foundation (step (run fixedDeal lossSetup) lossDrop) ! 0 =
     [mkCard DIAMONDS RA True, mkCard DIAMONDS R2 True] \<and>
   length (allCards (run fixedDeal lossSetup)) = 52 \<and>
   length (allCards (step (run fixedDeal lossSetup) lossDrop)) = 51"
  by (simp add: run_def lossSetup_def lossDrop_def fixedDeal_def mkCard_def
      handler_defs allCards_def)

section \<open>Requests: pile lookups, moves and throws\<close>

lemma pileAt_valid: "validIndex piles n \<Longrightarrow> pileAt piles n = Inr (piles ! the n)"
  by (auto simp add: validIndex_def pileAt_def split: option.splits)

lemma pileAt_invalid: "\<not> validIndex piles n \<Longrightarrow> pileAt piles n = Inl TypeError"
  by (auto simp add: validIndex_def pileAt_def split: option.splits)

lemma error_cases: "(e :: error) = TypeError"
  by (cases e) simp

lemma moveCards_unknown:
  "\<not> knownSource (fst source) \<Longrightarrow> moveCards g c source idx target = Inr None"
  by (cases source) (simp add: moveCards_def srcPileOf_def knownSource_def)

lemma srcPileOf_cases:
  "srcPileOf g (t, n) =
     (if t = ''waste'' then Inr (Some (waste g))
      else if t = ''tableau'' then
        (if validIndex (tableau g) n then Inr (Some (tableau g ! the n)) else Inl TypeError)
      else if t = ''foundation'' then
        (if validIndex (foundation g) n then Inr (Some (foundation g ! the n)) else Inl TypeError)
      else Inr None)"
  by (simp add: srcPileOf_def pileAt_valid pileAt_invalid)

lemma tgtPileOf_cases:
  "tgtPileOf g target =
     (if targetExists g target then Inr (targetPile g target) else Inl TypeError)"
  by (cases target) (simp add: tgtPileOf_def targetExists_def targetPile_def pileAt_valid pileAt_invalid)

lemma moveCards_wellformed:
  assumes "runOf g source idx \<noteq> []" "targetExists g target"
  shows "moveCards g c source idx target =
     (if legalMove g source idx target
      then Inr (Some (pushRun (removeRun g source idx) target
                        (hd (runOf g source idx)) (runOf g source idx)))
      else Inr None)"
proof (cases source)
  case (Pair t n)
  show ?thesis
    using assms unfolding Pair
    by (auto simp add: moveCards_def srcPileOf_cases tgtPileOf_cases runOf_def movingOf_def
        legalMove_def Let_def split: list.splits if_splits)
qed

lemma moveCards_throws_iff:
  assumes "knownSource (fst source)"
  shows "moveCards g c source idx target = Inl TypeError \<longleftrightarrow>
         runOf g source idx = [] \<or> \<not> targetExists g target"
proof (cases source)
  case (Pair t n)
  show ?thesis
    using assms unfolding Pair
    by (auto simp add: moveCards_def srcPileOf_cases tgtPileOf_cases runOf_def movingOf_def
        knownSource_def Let_def split: list.splits if_splits)
qed

lemma tableauSearch_find:
  "tableauSearch g c source idx i =
     (case find (\<lambda>j. canMoveToTableau c (tableau g ! j)) [i..<length (tableau g)] of
        Some k \<Rightarrow> clickToTableau g c source idx k
      | None \<Rightarrow> Inr None)"
proof (induction g c source idx i rule: tableauSearch.induct)
  case (1 game crd source index i)
  show ?case
  proof (cases "i < length (tableau game)")
    case True
    then have u: "[i..<length (tableau game)] = i # [i + 1..<length (tableau game)]"
      by (simp add: upt_conv_Cons)
    show ?thesis
      using True 1 by (subst tableauSearch.simps) (simp add: u)
  next
    case False
    then show ?thesis by (subst tableauSearch.simps) simp
  qed
qed

lemma foundationSearch_find:
  "foundationSearch g c source idx i =
     (case find (\<lambda>j. canMoveToFoundation c (foundation g ! j)) [i..<length (foundation g)] of
        Some k \<Rightarrow> clickToFoundation g c source idx k
      | None \<Rightarrow> tableauSearch g c source idx 0)"
proof (induction g c source idx i rule: foundationSearch.induct)
  case (1 game crd source index i)
  show ?case
  proof (cases "i < length (foundation game)")
    case True
    then have u: "[i..<length (foundation game)] = i # [i + 1..<length (foundation game)]"
      by (simp add: upt_conv_Cons)
    show ?thesis
      using True 1 by (subst foundationSearch.simps) (simp add: u)
  next
    case False
    then show ?thesis by (subst foundationSearch.simps) simp
  qed
qed

lemma firstAccepting_Some:
  "firstAccepting P piles = Some k \<longleftrightarrow>
     k < length piles \<and> P (piles ! k) \<and> (\<forall>j < k. \<not> P (piles ! j))"
  unfolding firstAccepting_def find_Some_iff
  by (auto simp add: )

lemma firstAccepting_None:
  "firstAccepting P piles = None \<longleftrightarrow> (\<forall>j < length piles. \<not> P (piles ! j))"
  unfolding firstAccepting_def find_None_iff by auto

section \<open>Clicks: the search for a destination\<close>

lemma clickToFoundation_cases:
  "clickToFoundation g c (t, n) idx k =
     (if t = ''waste'' then
        Inr (Some (g\<lparr>waste := butlast (waste g),
                     foundation := (foundation g)[k := foundation g ! k @ [c]]\<rparr>))
      else if validIndex (tableau g) n then
        Inr (Some (g\<lparr>tableau := (tableau g)[the n := flipTop (spliceOne (tableau g ! the n) idx)],
                     foundation := (foundation g)[k := foundation g ! k @ [c]]\<rparr>))
      else Inl TypeError)"
  by (simp add: clickToFoundation_def pileAt_valid pileAt_invalid)

lemma clickToTableau_waste:
  "clickToTableau g c (''waste'', n) idx k =
     Inr (Some (g\<lparr>waste := butlast (waste g),
                  tableau := (tableau g)[k := tableau g ! k @ [c]]\<rparr>))"
  by (simp add: clickToTableau_def)

lemma clickToTableau_tableau:
  "clickToTableau g c (''tableau'', n) idx k =
     (if validIndex (tableau g) n then
        Inr (Some (g\<lparr>tableau :=
          ((tableau g)[the n := flipTop (spliceFrom (tableau g ! the n) idx)])
            [k := ((tableau g)[the n := flipTop (spliceFrom (tableau g ! the n) idx)]) ! k @
                  map (\<lambda>c. c\<lparr>isFaceUp := True\<rparr>) (sliceFrom (tableau g ! the n) idx)]\<rparr>))
      else Inl TypeError)"
  by (simp add: clickToTableau_def pileAt_valid pileAt_invalid)

lemma clickToTableau_foundation:
  "clickToTableau g c (''foundation'', n) idx k =
     (if validIndex (foundation g) n then
        Inr (Some (g\<lparr>foundation := (foundation g)[the n := butlast (foundation g ! the n)],
                     tableau := (tableau g)[k := tableau g ! k @ [c]]\<rparr>))
      else Inl TypeError)"
  by (simp add: clickToTableau_def pileAt_valid pileAt_invalid)

lemma handleCardClick_find:
  "handleCardClick g c source idx =
     (case (if fst source \<noteq> ''foundation''
            then firstAccepting (canMoveToFoundation c) (foundation g) else None) of
        Some k \<Rightarrow> clickToFoundation g c source idx k
      | None \<Rightarrow>
          (case firstAccepting (canMoveToTableau c) (tableau g) of
             Some k \<Rightarrow> clickToTableau g c source idx k
           | None \<Rightarrow> Inr None))"
  by (simp add: handleCardClick_def foundationSearch_find tableauSearch_find firstAccepting_def
      split: option.splits)

lemma find_map_index: "find P (map f xs) = map_option f (find (\<lambda>x. P (f x)) xs)"
  by (induction xs) simp_all

lemma firstAccepting_Nil: "firstAccepting P [] = None"
  by (simp add: firstAccepting_def)

lemma firstAccepting_Cons:
  "firstAccepting P (p # ps) = (if P p then Some 0 else map_option Suc (firstAccepting P ps))"
proof -
  have "[0..<Suc (length ps)] = 0 # [Suc 0..<Suc (length ps)]"
    by (rule upt_conv_Cons) simp
  moreover have "length (p # ps) = Suc (length ps)" by simp
  ultimately have "[0..<length (p # ps)] = 0 # map Suc [0..<length ps]"
    by (simp only: map_Suc_upt)
  then show ?thesis
    by (simp add: firstAccepting_def find_map_index del: upt_Suc)
qed

lemmas eval_defs = handler_defs validIndex_def firstAccepting_Nil firstAccepting_Cons
  fixedDeal_def mkCard_def run_def

lemmas click_eval = handleCardClick_find clickToFoundation_cases clickToTableau_waste
  clickToTableau_tableau clickToTableau_foundation

lemma face_up_update: "isFaceUp c \<Longrightarrow> c\<lparr>isFaceUp := True\<rparr> = c"
  by (rule CardType.equality) simp_all

lemma flipTop_face_up: "p \<noteq> [] \<Longrightarrow> isFaceUp (last p) \<Longrightarrow> flipTop p = p"
  by (simp add: flipTop_def face_up_update)

lemma spliceOne_middle:
  assumes "0 \<le> idx" "nat idx + 1 < length p"
  shows "spliceOne p idx = take (nat idx) p @ drop (nat idx + 1) p"
    and "spliceOne p idx \<noteq> []"
    and "last (spliceOne p idx) = last p"
proof -
  have r: "relStart (length p) idx = nat idx"
    using assms by (simp add: relStart_def)
  show 1: "spliceOne p idx = take (nat idx) p @ drop (nat idx + 1) p"
    by (simp add: spliceOne_def r Let_def)
  have d: "drop (nat idx + 1) p \<noteq> []"
    using assms(2) by simp
  then show "spliceOne p idx \<noteq> []"
    unfolding 1 by simp
  show "last (spliceOne p idx) = last p"
    unfolding 1 using d assms(2) by (simp add: last_drop)
qed




text \<open>
  Claim C10. The clicked card is at \<open>idx\<close> in tableau pile \<open>n\<close>, with cards above it
  and the top card face-up. If some foundation pile accepts it, the handler takes only
  that card out of the pile (the cards below keep their positions, the cards above move
  down by one) and pushes it on the first accepting foundation pile. The suffix from the
  clicked card is moved as a whole only when the destination is a tableau pile.
\<close>

theorem click_middle_card:
  assumes "validIndex (tableau g) n"
    and "p = tableau g ! the n"
    and "0 \<le> idx" and "nat idx + 1 < length p"
  shows "(firstAccepting (canMoveToFoundation c) (foundation g) = Some k \<and> isFaceUp (last p) \<longrightarrow>
            handleCardClick g c (''tableau'', n) idx =
              Inr (Some (g\<lparr>tableau := (tableau g)[the n := take (nat idx) p @ drop (nat idx + 1) p],
                           foundation := (foundation g)[k := foundation g ! k @ [c]]\<rparr>))) \<and>
         length (take (nat idx) p @ drop (nat idx + 1) p) + 1 = length p \<and>
         (\<forall>j < nat idx. (take (nat idx) p @ drop (nat idx + 1) p) ! j = p ! j) \<and>
         (\<forall>j. nat idx \<le> j \<and> j + 1 < length p \<longrightarrow>
               (take (nat idx) p @ drop (nat idx + 1) p) ! j = p ! (j + 1)) \<and>
         (firstAccepting (canMoveToFoundation c) (foundation g) = None \<and>
          firstAccepting (canMoveToTableau c) (tableau g) = Some k \<longrightarrow>
            handleCardClick g c (''tableau'', n) idx =
              Inr (Some (g\<lparr>tableau :=
                ((tableau g)[the n := flipTop (take (nat idx) p)])
                  [k := ((tableau g)[the n := flipTop (take (nat idx) p)]) ! k @
                        map (\<lambda>c. c\<lparr>isFaceUp := True\<rparr>) (drop (nat idx) p)]\<rparr>)))"
proof -
  have r: "relStart (length p) idx = nat idx"
    using assms(3,4) by (simp add: relStart_def)
  have 1: "firstAccepting (canMoveToFoundation c) (foundation g) = Some k \<and> isFaceUp (last p) \<longrightarrow>
            handleCardClick g c (''tableau'', n) idx =
              Inr (Some (g\<lparr>tableau := (tableau g)[the n := take (nat idx) p @ drop (nat idx + 1) p],
                           foundation := (foundation g)[k := foundation g ! k @ [c]]\<rparr>))"
    using assms(1) spliceOne_middle [OF assms(3,4)] flipTop_face_up [of "spliceOne p idx"]
    by (simp add: click_eval assms(2) [symmetric])
  have 2: "length (take (nat idx) p @ drop (nat idx + 1) p) + 1 = length p"
    using assms(4) by simp
  have 3: "\<forall>j < nat idx. (take (nat idx) p @ drop (nat idx + 1) p) ! j = p ! j"
    using assms(4) by (simp add: nth_append)
  have 4: "\<forall>j. nat idx \<le> j \<and> j + 1 < length p \<longrightarrow>
               (take (nat idx) p @ drop (nat idx + 1) p) ! j = p ! (j + 1)"
    using assms(4) by (auto simp add: nth_append min_def)
  have 5: "firstAccepting (canMoveToFoundation c) (foundation g) = None \<and>
          firstAccepting (canMoveToTableau c) (tableau g) = Some k \<longrightarrow>
            handleCardClick g c (''tableau'', n) idx =
              Inr (Some (g\<lparr>tableau :=
                ((tableau g)[the n := flipTop (take (nat idx) p)])
                  [k := ((tableau g)[the n := flipTop (take (nat idx) p)]) ! k @
                        map (\<lambda>c. c\<lparr>isFaceUp := True\<rparr>) (drop (nat idx) p)]\<rparr>))"
    using assms(1)
    by (simp add: click_eval assms(2) [symmetric] spliceFrom_def sliceFrom_def r)
  show ?thesis
    using 1 2 3 4 5 by blast
qed

theorem click_middle_card_witness:
  "tableau (stateAfter (run fixedDeal lossSetup)
      (handleCardClick (run fixedDeal lossSetup) (mkCard DIAMONDS R2 True) (''tableau'', Some 5) 5)) ! 5 =
     [mkCard SPADES R8 False, mkCard SPADES R2 False, mkCard CLUBS R10 False,
      mkCard CLUBS R6 False, mkCard CLUBS R3 True, mkCard CLUBS RA True] \<and>
   foundation (stateAfter (run fixedDeal lossSetup)
      (handleCardClick (run fixedDeal lossSetup) (mkCard DIAMONDS R2 True) (''tableau'', Some 5) 5)) ! 0 =
     [mkCard DIAMONDS RA True, mkCard DIAMONDS R2 True] \<and>
   tableau (stateAfter (run fixedDeal suffixSetup)
      (handleCardClick (run fixedDeal suffixSetup) (mkCard SPADES RK True) (''tableau'', Some 0) 0)) ! 0 = [] \<and>
   tableau (stateAfter (run fixedDeal suffixSetup)
      (handleCardClick (run fixedDeal suffixSetup) (mkCard SPADES RK True) (''tableau'', Some 0) 0)) ! 1 =
     [mkCard SPADES RK True, mkCard DIAMONDS RQ True]"
proof -
  define S where "S = run fixedDeal lossSetup"
  define U where "U = run fixedDeal suffixSetup"
  let ?p = "[mkCard SPADES R8 False, mkCard SPADES R2 False, mkCard CLUBS R10 False,
      mkCard CLUBS R6 False, mkCard CLUBS R3 True, mkCard DIAMONDS R2 True, mkCard CLUBS RA True]"
  let ?q = "[mkCard SPADES RK True, mkCard DIAMONDS RQ True]"
  have tabS: "tableau S ! 5 = ?p" and lenS: "length (tableau S) = 7"
    and fndS: "foundation S = [[mkCard DIAMONDS RA True], [], [], []]"
    unfolding S_def by (simp_all add: eval_defs lossSetup_def)
  have tabU: "tableau U =
      [?q, [],
       [mkCard SPADES RJ False, mkCard SPADES R5 False, mkCard CLUBS RK True],
       [mkCard SPADES R10 False, mkCard SPADES R4 False, mkCard CLUBS RQ False,
        mkCard CLUBS R8 True, mkCard DIAMONDS R7 True, mkCard SPADES R6 True],
       [mkCard SPADES R9 False, mkCard SPADES R3 False, mkCard CLUBS RJ False,
        mkCard CLUBS R7 False, mkCard CLUBS R4 True],
       [mkCard SPADES R8 False, mkCard SPADES R2 False, mkCard CLUBS R10 False,
        mkCard CLUBS R6 False, mkCard CLUBS R3 False, mkCard CLUBS RA True],
       [mkCard SPADES R7 False, mkCard SPADES RA False, mkCard CLUBS R9 False,
        mkCard CLUBS R5 False, mkCard CLUBS R2 False, mkCard DIAMONDS RK True,
        mkCard SPADES RQ True]]"
    and fndU: "foundation U = [[], [], [], []]"
    unfolding U_def by (simp_all add: eval_defs suffixSetup_def click_eval)
  have FS: "firstAccepting (canMoveToFoundation (mkCard DIAMONDS R2 True)) (foundation S) = Some 0"
    unfolding fndS by (simp add: eval_defs)
  have FU: "firstAccepting (canMoveToFoundation (mkCard SPADES RK True)) (foundation U) = None"
    unfolding fndU by (simp add: eval_defs)
  have TU: "firstAccepting (canMoveToTableau (mkCard SPADES RK True)) (tableau U) = Some 1"
    unfolding tabU by (simp add: eval_defs)
  have vS: "validIndex (tableau S) (Some 5)"
    by (simp add: validIndex_def lenS)
  have vU: "validIndex (tableau U) (Some 0)"
    by (simp add: validIndex_def tabU)
  have pS: "?p = tableau S ! the (Some 5)"
    by (simp add: tabS)
  have pU: "?q = tableau U ! the (Some 0)"
    by (simp add: tabU)
  have upS: "isFaceUp (last ?p)"
    by (simp add: mkCard_def)
  have cS: "handleCardClick S (mkCard DIAMONDS R2 True) (''tableau'', Some 5) 5 =
      Inr (Some (S\<lparr>tableau := (tableau S)[the (Some 5) := take (nat 5) ?p @ drop (nat 5 + 1) ?p],
                   foundation := (foundation S)[0 := foundation S ! 0 @ [mkCard DIAMONDS R2 True]]\<rparr>))"
    using click_middle_card [where g = S and n = "Some 5" and p = ?p and idx = 5
        and c = "mkCard DIAMONDS R2 True" and k = 0, OF vS pS, THEN conjunct1] FS upS
    by simp
  have cU: "handleCardClick U (mkCard SPADES RK True) (''tableau'', Some 0) 0 =
      Inr (Some (U\<lparr>tableau :=
                ((tableau U)[the (Some 0) := flipTop (take (nat 0) ?q)])
                  [1 := ((tableau U)[the (Some 0) := flipTop (take (nat 0) ?q)]) ! 1 @
                        map (\<lambda>c. c\<lparr>isFaceUp := True\<rparr>) (drop (nat 0) ?q)]\<rparr>))"
    using click_middle_card [where g = U and n = "Some 0" and p = ?q and idx = 0
        and c = "mkCard SPADES RK True" and k = 1, OF vU pU,
        THEN conjunct2, THEN conjunct2, THEN conjunct2, THEN conjunct2] FU TU
    by simp
  have 1: "tableau (stateAfter S
      (handleCardClick S (mkCard DIAMONDS R2 True) (''tableau'', Some 5) 5)) ! 5 =
     [mkCard SPADES R8 False, mkCard SPADES R2 False, mkCard CLUBS R10 False,
      mkCard CLUBS R6 False, mkCard CLUBS R3 True, mkCard CLUBS RA True]"
    unfolding cS by (simp add: stateAfter_def lenS)
  have 2: "foundation (stateAfter S
      (handleCardClick S (mkCard DIAMONDS R2 True) (''tableau'', Some 5) 5)) ! 0 =
     [mkCard DIAMONDS RA True, mkCard DIAMONDS R2 True]"
    unfolding cS by (simp add: stateAfter_def fndS)
  have 3: "tableau (stateAfter U
      (handleCardClick U (mkCard SPADES RK True) (''tableau'', Some 0) 0)) ! 0 = []"
    unfolding cU by (simp add: stateAfter_def tabU flipTop_def)
  have 4: "tableau (stateAfter U
      (handleCardClick U (mkCard SPADES RK True) (''tableau'', Some 0) 0)) ! 1 =
     [mkCard SPADES RK True, mkCard DIAMONDS RQ True]"
    unfolding cU by (simp add: stateAfter_def tabU flipTop_def mkCard_def)
  show ?thesis
    using 1 2 3 4 unfolding S_def U_def by simp
qed

section \<open>Totality and malformed requests\<close>

lemma clickToFoundation_ok:
  "t = ''waste'' \<or> validIndex (tableau g) n \<Longrightarrow> \<exists>out. clickToFoundation g c (t, n) idx k = Inr out"
  by (auto simp add: clickToFoundation_cases)

lemma clickToTableau_ok:
  "sourceExists g (t, n) \<Longrightarrow> \<exists>out. clickToTableau g c (t, n) idx k = Inr out"
  by (auto simp add: sourceExists_def clickToTableau_waste clickToTableau_tableau
      clickToTableau_foundation)

lemma handleCardClick_ok:
  assumes "sourceExists g source"
  shows "\<exists>out. handleCardClick g c source idx = Inr out"
proof (cases source)
  case (Pair t n)
  have f: "t \<noteq> ''foundation'' \<Longrightarrow> t = ''waste'' \<or> validIndex (tableau g) n"
    using assms unfolding Pair by (auto simp add: sourceExists_def)
  show ?thesis
    unfolding Pair handleCardClick_find
    using clickToTableau_ok [of g t n c idx] clickToFoundation_ok [of t g n c idx] f assms
    unfolding Pair by (auto split: option.splits)
qed

lemma handleCardClick_no_destination:
  assumes "firstAccepting (canMoveToFoundation c) (foundation g) = None"
    and "firstAccepting (canMoveToTableau c) (tableau g) = None"
  shows "handleCardClick g c source idx = Inr None"
  using assms by (simp add: handleCardClick_find)

text \<open>
  Claim C5, as stated, fails: \<open>moveCards\<close> throws a \<^verbatim>\<open>TypeError\<close> on a tableau pile id
  outside the seven piles and on a start index past the end of the source pile, and
  \<open>handleCardClick\<close> throws on a tableau pile id outside the piles once a destination
  accepts the card.
\<close>

theorem handlers_total_counterexample:
  "moveCards fixedDeal (mkCard SPADES RK True) (''tableau'', Some 7) 0 (''foundation'', Some 0) =
     Inl TypeError \<and>
   moveCards fixedDeal (mkCard SPADES RK True) (''tableau'', Some 0) 1 (''foundation'', Some 0) =
     Inl TypeError \<and>
   handleCardClick fixedDeal (mkCard CLUBS RA True) (''tableau'', Some 7) 0 = Inl TypeError"
  by (simp add: click_eval eval_defs)

lemma sliceFrom_empty_iff: "sliceFrom p idx = [] \<longleftrightarrow> p = [] \<or> int (length p) \<le> idx"
proof (cases "idx < 0")
  case True
  then have "relStart (length p) idx < length p \<or> p = []"
    by (cases p) (simp_all add: relStart_def)
  then show ?thesis
    using True by (auto simp add: sliceFrom_def)
next
  case False
  then show ?thesis
    by (auto simp add: sliceFrom_def relStart_def)
qed

lemma runOf_empty_iff:
  "runOf g (t, n) idx = [] \<longleftrightarrow>
     \<not> knownSource t \<or>
     t = ''waste'' \<and> waste g = [] \<or>
     t = ''tableau'' \<and>
       (\<not> validIndex (tableau g) n \<or> tableau g ! the n = [] \<or>
        int (length (tableau g ! the n)) \<le> idx) \<or>
     t = ''foundation'' \<and> (\<not> validIndex (foundation g) n \<or> foundation g ! the n = [])"
  by (auto simp add: runOf_def knownSource_def sliceFrom_empty_iff)

lemma moveCards_throws_explicit:
  "moveCards g c (t, n) idx (tt, m) = Inl TypeError \<longleftrightarrow>
     knownSource t \<and>
     (t = ''waste'' \<and> waste g = [] \<or>
      t = ''tableau'' \<and>
        (\<not> validIndex (tableau g) n \<or> tableau g ! the n = [] \<or>
         int (length (tableau g ! the n)) \<le> idx) \<or>
      t = ''foundation'' \<and> (\<not> validIndex (foundation g) n \<or> foundation g ! the n = []) \<or>
      tt = ''foundation'' \<and> \<not> validIndex (foundation g) m \<or>
      tt \<noteq> ''foundation'' \<and> \<not> validIndex (tableau g) m)"
proof (cases "knownSource t")
  case False
  then show ?thesis
    using moveCards_unknown [of "(t, n)" g c idx "(tt, m)"] by simp
next
  case True
  have "targetExists g (tt, m) \<longleftrightarrow>
      \<not> (tt = ''foundation'' \<and> \<not> validIndex (foundation g) m \<or>
         tt \<noteq> ''foundation'' \<and> \<not> validIndex (tableau g) m)"
    by (auto simp add: targetExists_def)
  then show ?thesis
    using True moveCards_throws_iff [of "(t, n)" g c idx "(tt, m)"]
      runOf_empty_iff [of g t n idx]
    by auto
qed

lemma moveCards_returns_iff:
  "(\<exists>out. moveCards g c source idx target = Inr out) \<longleftrightarrow>
     \<not> knownSource (fst source) \<or> runOf g source idx \<noteq> [] \<and> targetExists g target"
proof (cases "knownSource (fst source)")
  case False
  then show ?thesis
    using moveCards_unknown [of source g c idx target] by simp
next
  case True
  have "(\<exists>out. moveCards g c source idx target = Inr out) \<longleftrightarrow>
      moveCards g c source idx target \<noteq> Inl TypeError"
    by (cases "moveCards g c source idx target") (auto simp add: error_cases)
  then show ?thesis
    using True moveCards_throws_iff [OF True, of g c idx target] by auto
qed






lemma moveCards_applied:
  assumes "runOf g source idx \<noteq> []" "targetExists g target"
  shows "legalMove g source idx target \<longrightarrow> (\<exists>ng. moveCards g c source idx target = Inr (Some ng))"
    and "\<not> legalMove g source idx target \<longrightarrow> moveCards g c source idx target = Inr None"
  using assms by (simp_all add: moveCards_wellformed)


lemma clickToFoundation_throws:
  "clickToFoundation g c (t, n) idx k = Inl TypeError \<longleftrightarrow>
     t \<noteq> ''waste'' \<and> \<not> validIndex (tableau g) n"
  by (simp add: clickToFoundation_cases)

lemma clickToTableau_throws:
  "clickToTableau g c (t, n) idx k = Inl TypeError \<longleftrightarrow>
     t = ''tableau'' \<and> \<not> validIndex (tableau g) n \<or>
     t = ''foundation'' \<and> \<not> validIndex (foundation g) n \<or>
     \<not> knownSource t \<and> (\<not> validIndex (foundation g) n \<or> \<not> validIndex (tableau g) n)"
proof -
  consider "t = ''waste''" | "t = ''tableau''" | "t = ''foundation''" | "\<not> knownSource t"
    by (auto simp add: knownSource_def)
  then show ?thesis
  proof cases
    case 1
    then show ?thesis by (simp add: clickToTableau_waste knownSource_def)
  next
    case 2
    then show ?thesis by (simp add: clickToTableau_tableau knownSource_def)
  next
    case 3
    then show ?thesis by (simp add: clickToTableau_foundation knownSource_def)
  next
    case 4
    then have t: "t \<noteq> ''waste''" "t \<noteq> ''tableau''" "t \<noteq> ''foundation''"
      by (simp_all add: knownSource_def)
    show ?thesis
      using 4 t
      by (cases "validIndex (foundation g) n"; cases "validIndex (tableau g) n")
        (simp_all add: clickToTableau_def pileAt_valid pileAt_invalid)
  qed
qed

lemma handleCardClick_throws_iff:
  "handleCardClick g c (t, n) idx = Inl TypeError \<longleftrightarrow>
     (t \<noteq> ''waste'' \<and> t \<noteq> ''foundation'' \<and>
         firstAccepting (canMoveToFoundation c) (foundation g) \<noteq> None \<and>
         \<not> validIndex (tableau g) n \<or>
         (t = ''foundation'' \<or> firstAccepting (canMoveToFoundation c) (foundation g) = None) \<and>
         firstAccepting (canMoveToTableau c) (tableau g) \<noteq> None \<and>
         (t = ''tableau'' \<and> \<not> validIndex (tableau g) n \<or>
          t = ''foundation'' \<and> \<not> validIndex (foundation g) n \<or>
          \<not> knownSource t \<and>
            (\<not> validIndex (foundation g) n \<or> \<not> validIndex (tableau g) n)))"
proof -
  let ?F = "firstAccepting (canMoveToFoundation c) (foundation g)"
  let ?T = "firstAccepting (canMoveToTableau c) (tableau g)"
  show ?thesis
  proof (cases "t \<noteq> ''foundation'' \<and> ?F \<noteq> None")
    case True
    then obtain k where k: "?F = Some k" by auto
    have "handleCardClick g c (t, n) idx = clickToFoundation g c (t, n) idx k"
      using True k by (simp add: handleCardClick_find)
    then show ?thesis
      using True k by (auto simp add: clickToFoundation_throws)
  next
    case False
    then have f: "(if fst (t, n) \<noteq> ''foundation'' then ?F else None) = None"
      by auto
    show ?thesis
    proof (cases ?T)
      case None
      have "handleCardClick g c (t, n) idx = Inr None"
        unfolding handleCardClick_find f None by simp
      then show ?thesis
        using None False by auto
    next
      case (Some k)
      have "handleCardClick g c (t, n) idx = clickToTableau g c (t, n) idx k"
        unfolding handleCardClick_find f Some by simp
      then show ?thesis
        using Some False by (auto simp add: clickToTableau_throws)
    qed
  qed
qed

lemma outcome_returns_iff: "(\<exists>out. (x :: outcome) = Inr out) \<longleftrightarrow> x \<noteq> Inl TypeError"
  by (cases x) (auto simp add: error_cases)

text \<open>
  Claim C5, as amended. \<open>handleStock\<close> yields a state for every state. A call of
  \<open>moveCards\<close> or of \<open>handleCardClick\<close> either returns or throws a \<^verbatim>\<open>TypeError\<close>.
  \<open>moveCards\<close> throws exactly when the source type is waste, tableau or foundation and
  one of these holds: the waste source is empty; the tableau source has a pile index
  outside the piles, an empty pile, or a start index at or past the end of the pile; the
  foundation source has a pile index outside the piles or an empty pile; the target pile
  index is outside the foundation piles for a foundation target, or outside the tableau
  piles for a target of any other type. A source of unknown type is a no-op, and so is a
  request that does not throw and that the legality rule rejects. \<open>handleCardClick\<close>
  throws exactly when a pile accepts the card and a source pile that it reads does not
  exist: on the way to a foundation pile (the source is neither the waste nor a
  foundation pile, and a foundation pile accepts), the tableau pile of the source index;
  on the way to a tableau pile (the source is a foundation pile or no foundation pile
  accepts, and a tableau pile accepts), the tableau pile of a tableau source, the
  foundation pile of a foundation source, and for a source of unknown type the
  foundation pile or the tableau pile of its index. The index argument never makes it
  throw. It is a no-op when no pile that it searches accepts the card.
\<close>

theorem handlers_return_or_throw:
  "(\<exists>g'. handleStock g = g') \<and>
   ((\<exists>out. moveCards g c (t, n) idx (tt, m) = Inr out) \<longleftrightarrow>
      moveCards g c (t, n) idx (tt, m) \<noteq> Inl TypeError) \<and>
   (moveCards g c (t, n) idx (tt, m) = Inl TypeError \<longleftrightarrow>
      knownSource t \<and>
        (t = ''waste'' \<and> waste g = [] \<or>
         t = ''tableau'' \<and>
           (\<not> validIndex (tableau g) n \<or> tableau g ! the n = [] \<or>
            int (length (tableau g ! the n)) \<le> idx) \<or>
         t = ''foundation'' \<and> (\<not> validIndex (foundation g) n \<or> foundation g ! the n = []) \<or>
         tt = ''foundation'' \<and> \<not> validIndex (foundation g) m \<or>
         tt \<noteq> ''foundation'' \<and> \<not> validIndex (tableau g) m)) \<and>
   (\<not> knownSource t \<longrightarrow> moveCards g c (t, n) idx (tt, m) = Inr None) \<and>
   (moveCards g c (t, n) idx (tt, m) \<noteq> Inl TypeError \<and> knownSource t \<and>
    \<not> legalMove g (t, n) idx (tt, m) \<longrightarrow>
      moveCards g c (t, n) idx (tt, m) = Inr None) \<and>
   ((\<exists>out. handleCardClick g c (t, n) idx = Inr out) \<longleftrightarrow>
      handleCardClick g c (t, n) idx \<noteq> Inl TypeError) \<and>
   (handleCardClick g c (t, n) idx = Inl TypeError \<longleftrightarrow>
        (t \<noteq> ''waste'' \<and> t \<noteq> ''foundation'' \<and>
         firstAccepting (canMoveToFoundation c) (foundation g) \<noteq> None \<and>
         \<not> validIndex (tableau g) n \<or>
         (t = ''foundation'' \<or> firstAccepting (canMoveToFoundation c) (foundation g) = None) \<and>
         firstAccepting (canMoveToTableau c) (tableau g) \<noteq> None \<and>
         (t = ''tableau'' \<and> \<not> validIndex (tableau g) n \<or>
          t = ''foundation'' \<and> \<not> validIndex (foundation g) n \<or>
          \<not> knownSource t \<and>
            (\<not> validIndex (foundation g) n \<or> \<not> validIndex (tableau g) n)))) \<and>
   (firstAccepting (canMoveToTableau c) (tableau g) = None \<and>
    (firstAccepting (canMoveToFoundation c) (foundation g) = None \<or> t = ''foundation'') \<longrightarrow>
      handleCardClick g c (t, n) idx = Inr None) \<and>
   (handleCardClick g c (t, n) idx = Inl TypeError \<longleftrightarrow>
      handleCardClick g c (t, n) idx' = Inl TypeError)"
proof -
  have 1: "moveCards g c (t, n) idx (tt, m) \<noteq> Inl TypeError \<and> knownSource t \<and>
    \<not> legalMove g (t, n) idx (tt, m) \<longrightarrow>
      moveCards g c (t, n) idx (tt, m) = Inr None"
    using moveCards_throws_iff [of "(t, n)" g c idx "(tt, m)"]
      moveCards_wellformed [of g "(t, n)" idx "(tt, m)" c]
    by auto
  have 2: "\<not> knownSource t \<longrightarrow> moveCards g c (t, n) idx (tt, m) = Inr None"
    using moveCards_unknown [of "(t, n)" g c idx "(tt, m)"] by simp
  have 3: "firstAccepting (canMoveToTableau c) (tableau g) = None \<and>
    (firstAccepting (canMoveToFoundation c) (foundation g) = None \<or> t = ''foundation'') \<longrightarrow>
      handleCardClick g c (t, n) idx = Inr None"
    by (auto simp add: handleCardClick_find)
  have 0: "\<exists>g'. handleStock g = g'" by simp
  have 4: "handleCardClick g c (t, n) idx = Inl TypeError \<longleftrightarrow>
      handleCardClick g c (t, n) idx' = Inl TypeError"
    unfolding handleCardClick_throws_iff ..
  show ?thesis
    by (intro conjI 0 1 2 3 4 moveCards_throws_explicit handleCardClick_throws_iff
        outcome_returns_iff)
qed

theorem handlers_return_or_throw_witness:
  "moveCards fixedDeal (mkCard SPADES RK True) (''tableau'', Some 7) 0 (''foundation'', Some 0) =
     Inl TypeError \<and>
   moveCards fixedDeal (mkCard SPADES RK True) (''tableau'', Some 0) 0 (''foundation'', Some 0) \<noteq>
     Inl TypeError \<and>
   moveCards fixedDeal (mkCard SPADES RK True) (''hand'', None) 0 (''foundation'', Some 0) =
     Inr None \<and>
   moveCards fixedDeal (mkCard SPADES RK True) (''tableau'', Some 0) 0 (''foundation'', Some 0) =
     Inr None \<and>
   handleCardClick fixedDeal (mkCard CLUBS RA True) (''tableau'', Some 7) 0 = Inl TypeError \<and>
   handleCardClick fixedDeal (mkCard CLUBS RA True) (''tableau'', Some 5) 5 \<noteq> Inl TypeError \<and>
   handleCardClick fixedDeal (mkCard SPADES RK True) (''tableau'', Some 7) 0 = Inr None \<and>
   handleCardClick fixedDeal (mkCard CLUBS RA True) (''tableau'', Some 5) 99 \<noteq> Inl TypeError"
proof -
  note T = handlers_return_or_throw [where g = fixedDeal]
  have FA: "firstAccepting (canMoveToFoundation (mkCard CLUBS RA True)) (foundation fixedDeal) = Some 0"
    by (simp add: eval_defs)
  have FK: "firstAccepting (canMoveToFoundation (mkCard SPADES RK True)) (foundation fixedDeal) = None"
    "firstAccepting (canMoveToTableau (mkCard SPADES RK True)) (tableau fixedDeal) = None"
    by (simp_all add: eval_defs)
  have v7: "\<not> validIndex (tableau fixedDeal) (Some 7)"
    and v5: "validIndex (tableau fixedDeal) (Some 5)"
    and v0: "validIndex (tableau fixedDeal) (Some 0)"
    and f0: "validIndex (foundation fixedDeal) (Some 0)"
    and p0: "tableau fixedDeal ! the (Some 0) = [mkCard SPADES RK True]"
    by (simp_all add: validIndex_def fixedDeal_def)
  have ks: "knownSource ''tableau''" "\<not> knownSource ''hand''"
    by (simp_all add: knownSource_def)
  have 1: "moveCards fixedDeal (mkCard SPADES RK True) (''tableau'', Some 7) 0 (''foundation'', Some 0) =
     Inl TypeError"
    using T [where c = "mkCard SPADES RK True" and t = "''tableau''" and n = "Some 7" and idx = 0
        and tt = "''foundation''" and m = "Some 0", THEN conjunct2, THEN conjunct2, THEN conjunct1] v7 ks
    by simp
  have 2: "moveCards fixedDeal (mkCard SPADES RK True) (''tableau'', Some 0) 0 (''foundation'', Some 0) \<noteq>
     Inl TypeError"
    using T [where c = "mkCard SPADES RK True" and t = "''tableau''" and n = "Some 0" and idx = 0
        and tt = "''foundation''" and m = "Some 0", THEN conjunct2, THEN conjunct2, THEN conjunct1] v0 f0 p0
    by simp
  have 3: "moveCards fixedDeal (mkCard SPADES RK True) (''hand'', None) 0 (''foundation'', Some 0) =
     Inr None"
    using T [where c = "mkCard SPADES RK True" and t = "''hand''" and n = None and idx = 0
        and tt = "''foundation''" and m = "Some 0", THEN conjunct2, THEN conjunct2, THEN conjunct2, THEN conjunct1] ks
    by simp
  have l: "\<not> legalMove fixedDeal (''tableau'', Some 0) 0 (''foundation'', Some 0)"
    by (simp add: legalMove_def runOf_def targetPile_def eval_defs)
  have 4: "moveCards fixedDeal (mkCard SPADES RK True) (''tableau'', Some 0) 0 (''foundation'', Some 0) =
     Inr None"
    using T [where c = "mkCard SPADES RK True" and t = "''tableau''" and n = "Some 0" and idx = 0
        and tt = "''foundation''" and m = "Some 0", THEN conjunct2, THEN conjunct2, THEN conjunct2, THEN conjunct2, THEN conjunct1] 2 ks l
    by simp
  have 5: "handleCardClick fixedDeal (mkCard CLUBS RA True) (''tableau'', Some 7) 0 = Inl TypeError"
    using T [where c = "mkCard CLUBS RA True" and t = "''tableau''" and n = "Some 7" and idx = 0, THEN conjunct2, THEN conjunct2, THEN conjunct2, THEN conjunct2, THEN conjunct2, THEN conjunct2, THEN conjunct1]
      FA v7
    by simp
  have 6: "handleCardClick fixedDeal (mkCard CLUBS RA True) (''tableau'', Some 5) 5 \<noteq> Inl TypeError"
    using T [where c = "mkCard CLUBS RA True" and t = "''tableau''" and n = "Some 5" and idx = 5, THEN conjunct2, THEN conjunct2, THEN conjunct2, THEN conjunct2, THEN conjunct2, THEN conjunct2, THEN conjunct1]
      FA v5 ks
    by simp
  have 7: "handleCardClick fixedDeal (mkCard SPADES RK True) (''tableau'', Some 7) 0 = Inr None"
    using T [where c = "mkCard SPADES RK True" and t = "''tableau''" and n = "Some 7" and idx = 0, THEN conjunct2, THEN conjunct2, THEN conjunct2, THEN conjunct2, THEN conjunct2, THEN conjunct2, THEN conjunct2, THEN conjunct1]
      FK
    by simp
  have 8: "handleCardClick fixedDeal (mkCard CLUBS RA True) (''tableau'', Some 5) 99 \<noteq> Inl TypeError"
    using T [where c = "mkCard CLUBS RA True" and t = "''tableau''" and n = "Some 5" and idx = 99
        and idx' = 5, THEN conjunct2, THEN conjunct2, THEN conjunct2, THEN conjunct2,
        THEN conjunct2, THEN conjunct2, THEN conjunct2, THEN conjunct2] 6
    by simp
  show ?thesis
    by (intro conjI 1 2 3 4 5 6 7 8)
qed

lemma sliceFrom_out_of_bounds: "int (length p) \<le> idx \<Longrightarrow> sliceFrom p idx = []"
  by (simp add: sliceFrom_def relStart_def)




section \<open>What each handler does to the multiset of cards\<close>

text \<open>
  The draw and the click keep the multiset of cards, and so does every drop but one: a
  drop that is applied on a foundation pile loses the cards of the run after the first.
\<close>

lemma pileIds_append [simp]: "pileIds (xs @ ys) = pileIds xs + pileIds ys"
  by (simp add: pileIds_def)

lemma pileIds_Nil [simp]: "pileIds [] = {#}"
  by (simp add: pileIds_def)

lemma pileIds_single: "pileIds [c] = {#cardId c#}"
  by (simp add: pileIds_def)

lemma cardIds_pileIds:
  "cardIds g = pileIds (stock g) + pileIds (waste g) + pileIds (concat (foundation g)) +
     pileIds (concat (tableau g))"
  by (simp add: cardIds_def allCards_def pileIds_def)

lemma pileIds_faces: "pileIds (map (\<lambda>c. c\<lparr>isFaceUp := b\<rparr>) xs) = pileIds xs"
  by (induction xs) (simp_all add: pileIds_def cardId_def)

lemma pileIds_rev: "pileIds (rev xs) = pileIds xs"
  by (simp add: pileIds_def rev_map [symmetric])

lemma pileIds_butlast: "xs \<noteq> [] \<Longrightarrow> pileIds (butlast xs) + pileIds [last xs] = pileIds xs"
  using append_butlast_last_id [of xs] pileIds_append [of "butlast xs" "[last xs]"] by simp

lemma pileIds_flipTop: "pileIds (flipTop xs) = pileIds xs"
proof (cases "xs = []")
  case True
  then show ?thesis by (simp add: flipTop_def)
next
  case False
  have "pileIds [(last xs)\<lparr>isFaceUp := True\<rparr>] = pileIds [last xs]"
    by (simp add: pileIds_def cardId_def)
  then show ?thesis
    using False pileIds_butlast [OF False] by (simp add: flipTop_def)
qed

lemma pileIds_take_drop: "pileIds (take s p) + pileIds (drop s p) = pileIds p"
  using pileIds_append [of "take s p" "drop s p"] by simp

lemma pileIds_concat_update:
  assumes "i < length ps"
  shows "pileIds (concat (ps[i := q])) + pileIds (ps ! i) = pileIds (concat ps) + pileIds q"
proof -
  have a: "ps = take i ps @ ps ! i # drop (Suc i) ps"
    using assms by (rule id_take_nth_drop)
  have b: "ps[i := q] = take i ps @ q # drop (Suc i) ps"
    using assms by (rule upd_conv_take_nth_drop)
  have "pileIds (concat ps) =
      pileIds (concat (take i ps)) + pileIds (ps ! i) + pileIds (concat (drop (Suc i) ps))"
    by (subst a) (simp del: append_take_drop_id)
  moreover have "pileIds (concat (ps[i := q])) =
      pileIds (concat (take i ps)) + pileIds q + pileIds (concat (drop (Suc i) ps))"
    by (subst b) (simp del: append_take_drop_id)
  ultimately show ?thesis by (simp add: ac_simps)
qed

lemma pileIds_push:
  assumes "i < length ps"
  shows "pileIds (concat (ps[i := ps ! i @ q])) = pileIds (concat ps) + pileIds q"
  using pileIds_concat_update [OF assms, of "ps ! i @ q"] by simp

lemma pileIds_take_out:
  assumes "i < length ps" and "pileIds r + pileIds d = pileIds (ps ! i)"
  shows "pileIds (concat (ps[i := r])) + pileIds d = pileIds (concat ps)"
proof -
  have "pileIds (concat (ps[i := r])) + (pileIds r + pileIds d) = pileIds (concat ps) + pileIds r"
    using pileIds_concat_update [OF assms(1), of r] assms(2) by simp
  then have "(pileIds (concat (ps[i := r])) + pileIds d) + pileIds r = pileIds (concat ps) + pileIds r"
    by (simp add: ac_simps)
  then show ?thesis by (rule add_right_imp_eq)
qed

lemma handleStock_conserves: "cardIds (handleStock g) = cardIds g"
proof (cases "stock g = []")
  case True
  then show ?thesis
    by (simp add: handleStock_def cardIds_pileIds pileIds_faces pileIds_rev)
next
  case False
  have "pileIds [(last (stock g))\<lparr>isFaceUp := True\<rparr>] = pileIds [last (stock g)]"
    by (simp add: pileIds_def cardId_def)
  then show ?thesis
    using False pileIds_butlast [OF False]
    by (simp add: handleStock_def cardIds_pileIds Let_def ac_simps)
qed


lemma validIndex_the: "validIndex piles n \<Longrightarrow> the n < length piles"
  by (auto simp add: validIndex_def split: option.splits)

lemma runOf_single_or_tableau:
  assumes "runOf g (t, n) idx \<noteq> []"
  shows "t = ''waste'' \<and> waste g \<noteq> [] \<and> runOf g (t, n) idx = [last (waste g)] \<or>
         t = ''foundation'' \<and> validIndex (foundation g) n \<and> foundation g ! the n \<noteq> [] \<and>
           runOf g (t, n) idx = [last (foundation g ! the n)] \<or>
         t = ''tableau'' \<and> validIndex (tableau g) n \<and>
           runOf g (t, n) idx = sliceFrom (tableau g ! the n) idx"
  using assms by (auto simp add: runOf_def split: if_splits)

lemma removeRun_conserves:
  assumes "runOf g (t, n) idx \<noteq> []"
  shows "cardIds (removeRun g (t, n) idx) + pileIds (runOf g (t, n) idx) = cardIds g"
proof -
  from runOf_single_or_tableau [OF assms] show ?thesis
  proof (elim disjE conjE)
    assume a: "t = ''waste''" "waste g \<noteq> []" "runOf g (t, n) idx = [last (waste g)]"
    show ?thesis
      using pileIds_butlast [OF a(2)] a
      by (simp add: removeRun_def cardIds_pileIds ac_simps)
  next
    assume a: "t = ''foundation''" "validIndex (foundation g) n" "foundation g ! the n \<noteq> []"
      "runOf g (t, n) idx = [last (foundation g ! the n)]"
    have "pileIds (concat ((foundation g)[the n := butlast (foundation g ! the n)])) +
        pileIds [last (foundation g ! the n)] = pileIds (concat (foundation g))"
      by (rule pileIds_take_out [OF validIndex_the [OF a(2)] pileIds_butlast [OF a(3)]])
    then show ?thesis
      using a by (simp add: removeRun_def cardIds_pileIds ac_simps)
  next
    assume a: "t = ''tableau''" "validIndex (tableau g) n"
      "runOf g (t, n) idx = sliceFrom (tableau g ! the n) idx"
    have "pileIds (flipTop (spliceFrom (tableau g ! the n) idx)) +
        pileIds (sliceFrom (tableau g ! the n) idx) = pileIds (tableau g ! the n)"
      by (simp add: pileIds_flipTop spliceFrom_def sliceFrom_def pileIds_take_drop)
    then have "pileIds (concat ((tableau g)[the n := flipTop (spliceFrom (tableau g ! the n) idx)])) +
        pileIds (sliceFrom (tableau g ! the n) idx) = pileIds (concat (tableau g))"
      by (rule pileIds_take_out [OF validIndex_the [OF a(2)]])
    then show ?thesis
      using a by (simp add: removeRun_def cardIds_pileIds ac_simps)
  qed
qed


lemma removeRun_lengths:
  "length (tableau (removeRun g source idx)) = length (tableau g)"
  "length (foundation (removeRun g source idx)) = length (foundation g)"
  by (cases source; simp add: removeRun_def)+

lemma targetExists_removeRun:
  "targetExists (removeRun g source idx) target = targetExists g target"
  by (cases target) (simp add: targetExists_def validIndex_def removeRun_lengths split: option.splits)

lemma pushRun_conserves:
  assumes "targetExists g target"
  shows "cardIds (pushRun g target first moving) =
         cardIds g + (if fst target = ''foundation'' then pileIds [first] else pileIds moving)"
proof (cases target)
  case (Pair t n)
  show ?thesis
  proof (cases "t = ''foundation''")
    case True
    then have "the n < length (foundation g)"
      using assms Pair by (simp add: targetExists_def validIndex_the)
    from pileIds_push [OF this, of "[first]"] show ?thesis
      using True Pair by (simp add: pushRun_def cardIds_pileIds ac_simps)
  next
    case False
    then have "the n < length (tableau g)"
      using assms Pair by (simp add: targetExists_def validIndex_the)
    from pileIds_push [OF this, of moving] show ?thesis
      using False Pair by (simp add: pushRun_def cardIds_pileIds ac_simps)
  qed
qed

text \<open>
  What a drop does to the cards of the state: nothing when it throws, is ignored or is
  rejected; when it is applied on a tableau pile the multiset of cards is kept; when it is
  applied on a foundation pile, the cards of the run after the first are gone.
\<close>

lemma moveCards_cards:
  "cardIds (stateAfter g (moveCards g c source idx target)) +
     (if runOf g source idx \<noteq> [] \<and> targetExists g target \<and> legalMove g source idx target \<and>
         fst target = ''foundation''
      then pileIds (tl (runOf g source idx)) else {#}) = cardIds g"
proof (cases "runOf g source idx \<noteq> [] \<and> targetExists g target")
  case False
  have "moveCards g c source idx target = Inr None \<or>
        moveCards g c source idx target = Inl TypeError"
    using False moveCards_unknown [of source g c idx target]
      moveCards_throws_iff [of source g c idx target] by blast
  then show ?thesis
    using False by (auto simp add: stateAfter_def)
next
  case True
  then have r: "runOf g source idx \<noteq> []" and t: "targetExists g target" by simp_all
  obtain srcT n where src: "source = (srcT, n)" by (cases source)
  have rm: "cardIds (removeRun g source idx) + pileIds (runOf g source idx) = cardIds g"
    using removeRun_conserves [of g srcT n idx] r unfolding src by simp
  have hdtl: "pileIds [hd (runOf g source idx)] + pileIds (tl (runOf g source idx)) =
      pileIds (runOf g source idx)"
    using r pileIds_append [of "[hd (runOf g source idx)]" "tl (runOf g source idx)"] by simp
  have t': "targetExists (removeRun g source idx) target"
    using t by (simp add: targetExists_removeRun)
  show ?thesis
  proof (cases "legalMove g source idx target")
    case False
    then show ?thesis
      using r t by (simp add: moveCards_wellformed stateAfter_def)
  next
    case True
    show ?thesis
      using True r t rm hdtl pushRun_conserves [OF t', of "hd (runOf g source idx)" "runOf g source idx"]
      by (simp add: moveCards_wellformed stateAfter_def ac_simps)
  qed
qed

lemma moveCards_conserves:
  assumes "fst target \<noteq> ''foundation'' \<or> length (runOf g source idx) \<le> 1"
  shows "cardIds (stateAfter g (moveCards g c source idx target)) = cardIds g"
proof -
  have "fst target = ''foundation'' \<Longrightarrow> tl (runOf g source idx) = []"
    using assms by (cases "runOf g source idx") auto
  then show ?thesis
    using moveCards_cards [of g c source idx target] by (auto split: if_splits)
qed


lemma firstAccepting_less: "firstAccepting P piles = Some k \<Longrightarrow> k < length piles"
  by (simp add: firstAccepting_Some)

lemma pileIds_spliceOne:
  assumes "sliceFrom p idx \<noteq> []"
  shows "pileIds (spliceOne p idx) + pileIds [hd (sliceFrom p idx)] = pileIds p"
proof -
  let ?s = "relStart (length p) idx"
  have s: "?s < length p"
    using assms by (simp add: sliceFrom_def)
  have h: "hd (sliceFrom p idx) = p ! ?s"
    using s by (simp add: sliceFrom_def hd_drop_conv_nth)
  have "pileIds p = pileIds (take ?s p) + pileIds [p ! ?s] + pileIds (drop (Suc ?s) p)"
    using id_take_nth_drop [OF s] pileIds_append [of "take ?s p" "p ! ?s # drop (Suc ?s) p"]
      pileIds_append [of "[p ! ?s]" "drop (Suc ?s) p"]
    by (simp add: ac_simps)
  then show ?thesis
    by (simp add: spliceOne_def Let_def h ac_simps)
qed

text \<open>
  A click with the card that the source and index address keeps the multiset of cards.
\<close>

lemma handleCardClick_conserves:
  assumes "runOf g source idx \<noteq> []" and "c = hd (runOf g source idx)"
  shows "cardIds (stateAfter g (handleCardClick g c source idx)) = cardIds g"
proof -
  obtain t n where src: "source = (t, n)" by (cases source)
  have r: "runOf g (t, n) idx \<noteq> []" using assms(1) src by simp
  have c: "c = hd (runOf g (t, n) idx)" using assms(2) src by simp
  let ?F = "firstAccepting (canMoveToFoundation c) (foundation g)"
  let ?T = "firstAccepting (canMoveToTableau c) (tableau g)"
  from runOf_single_or_tableau [OF r] show ?thesis
  proof (elim disjE conjE)
    assume a: "t = ''waste''" "waste g \<noteq> []" "runOf g (t, n) idx = [last (waste g)]"
    have cw: "pileIds (butlast (waste g)) + pileIds [c] = pileIds (waste g)"
      using pileIds_butlast [OF a(2)] c a(3) by simp
    show ?thesis
    proof (cases ?F)
      case (Some k)
      from pileIds_push [OF firstAccepting_less [OF Some], of "[c]"] cw show ?thesis
        using Some a(1) unfolding src
        by (simp add: click_eval stateAfter_def cardIds_pileIds ac_simps)
    next
      case None
      show ?thesis
      proof (cases ?T)
        case (Some k)
        from pileIds_push [OF firstAccepting_less [OF Some], of "[c]"] cw show ?thesis
          using Some None a(1) unfolding src
          by (simp add: click_eval stateAfter_def cardIds_pileIds ac_simps)
      next
        case None2: None
        show ?thesis
          using None None2 unfolding src by (simp add: click_eval stateAfter_def)
      qed
    qed
  next
    assume a: "t = ''foundation''" "validIndex (foundation g) n" "foundation g ! the n \<noteq> []"
      "runOf g (t, n) idx = [last (foundation g ! the n)]"
    have cf: "pileIds (butlast (foundation g ! the n)) + pileIds [c] = pileIds (foundation g ! the n)"
      using pileIds_butlast [OF a(3)] c a(4) by simp
    have rm: "pileIds (concat ((foundation g)[the n := butlast (foundation g ! the n)])) +
        pileIds [c] = pileIds (concat (foundation g))"
      by (rule pileIds_take_out [OF validIndex_the [OF a(2)] cf])
    show ?thesis
    proof (cases ?T)
      case (Some k)
      from pileIds_push [OF firstAccepting_less [OF Some], of "[c]"] rm show ?thesis
        using Some a(1,2) unfolding src
        by (simp add: click_eval stateAfter_def cardIds_pileIds ac_simps)
    next
      case None
      show ?thesis
        using None a(1) unfolding src by (simp add: click_eval stateAfter_def)
    qed
  next
    assume a: "t = ''tableau''" "validIndex (tableau g) n"
      "runOf g (t, n) idx = sliceFrom (tableau g ! the n) idx"
    let ?p = "tableau g ! the n"
    have ne: "sliceFrom ?p idx \<noteq> []" using r a(3) by simp
    have ch: "c = hd (sliceFrom ?p idx)" using c a(3) by simp
    have nlt: "the n < length (tableau g)" by (rule validIndex_the [OF a(2)])
    show ?thesis
    proof (cases ?F)
      case (Some k)
      have "pileIds (flipTop (spliceOne ?p idx)) + pileIds [c] = pileIds ?p"
        using pileIds_spliceOne [OF ne] ch by (simp add: pileIds_flipTop)
      then have rm: "pileIds (concat ((tableau g)[the n := flipTop (spliceOne ?p idx)])) +
          pileIds [c] = pileIds (concat (tableau g))"
        by (rule pileIds_take_out [OF nlt])
      from pileIds_push [OF firstAccepting_less [OF Some], of "[c]"] rm show ?thesis
        using Some a(1,2) unfolding src
        by (simp add: click_eval stateAfter_def cardIds_pileIds ac_simps)
    next
      case None
      show ?thesis
      proof (cases ?T)
        case (Some k)
        let ?tab1 = "(tableau g)[the n := flipTop (spliceFrom ?p idx)]"
        let ?run = "map (\<lambda>c. c\<lparr>isFaceUp := True\<rparr>) (sliceFrom ?p idx)"
        have "pileIds (flipTop (spliceFrom ?p idx)) + pileIds ?run = pileIds ?p"
          by (simp add: pileIds_flipTop pileIds_faces spliceFrom_def sliceFrom_def pileIds_take_drop)
        then have rm: "pileIds (concat ?tab1) + pileIds ?run = pileIds (concat (tableau g))"
          by (rule pileIds_take_out [OF nlt])
        have "k < length ?tab1"
          using firstAccepting_less [OF Some] by simp
        from pileIds_push [OF this, of ?run] rm show ?thesis
          using Some None a(1,2) unfolding src
          by (simp add: click_eval stateAfter_def cardIds_pileIds ac_simps)
      next
        case None2: None
        show ?thesis
          using None None2 unfolding src by (simp add: click_eval stateAfter_def)
      qed
    qed
  qed
qed

end
